theory Spec2Isabelle
  imports Main "HOL-Library.Word"
begin

section \<open>Data model (lib/type.ts)\<close>

text \<open>
  A JavaScript string is a sequence of UTF-16 code units. String literals of the source
  are written through \<open>js\<close>, which maps each ASCII character to its code unit.
\<close>

type_synonym js_string = "16 word list"

definition js :: "string \<Rightarrow> js_string" where
  "js s = map of_char s"

text \<open>\<open>IUser\<close>; the field \<open>id\<close> is called \<open>user_id\<close> here.\<close>

record IUser =
  user_id :: int
  username :: js_string
  email :: js_string

datatype conversation_kind = direct | group

text \<open>
  \<open>IConversation\<close>, with the fields the session code reads. The type declares
  \<open>participants\<close> as required, the page reads it with \<open>?.\<close>, so it is optional here.
\<close>

record IConversation =
  conversation_id :: int
  participants :: "IUser list option"
  conversation_type :: conversation_kind

datatype frame_type = chat_message | typing | online_status | other_type

datatype presence = online | offline

text \<open>
  A JSON value, as \<open>JSON.parse\<close> returns it and as \<open>JSON.stringify\<close> takes it: an
  object is the list of its properties, in order. Numbers are integers here.
\<close>

datatype json =
    JNull
  | JBool bool
  | JNumber int
  | JString js_string
  | JArray "json list"
  | JObject "(string \<times> json) list"

text \<open>
  \<open>IMessage\<close>, as the dispatcher builds it; the field \<open>id\<close> is called \<open>message_id\<close>
  here. The declared types of \<open>content\<close>, \<open>sender\<close> and \<open>created_at\<close> are not checked when
  the program runs: the three fields hold whatever value the frame carried.
\<close>

record IMessage =
  message_id :: int
  content :: json
  sender :: json
  conversation :: int
  created_at :: json

text \<open>
  What \<open>JSON.parse(event.data)\<close> does with an inbound frame: it throws, or returns a
  value, of any shape.
\<close>

datatype JSON_parse_result =
    parse_throws
  | parsed json

text \<open>
  \<open>data.key\<close> for a value other than \<open>null\<close>: a property of an object, undefined
  (\<open>None\<close>) when the object has no such property or the value is no object.
\<close>

definition property :: "string \<Rightarrow> json \<Rightarrow> json option" where
  "property key data = (case data of JObject kvs \<Rightarrow> map_of kvs key | _ \<Rightarrow> None)"

text \<open>
  Truthiness: \<open>null\<close>, \<open>false\<close>, \<open>0\<close> and the empty string are falsy, every array
  and every object is truthy.
\<close>

definition truthy :: "json \<Rightarrow> bool" where
  "truthy v =
     (case v of
        JNull \<Rightarrow> False
      | JBool b \<Rightarrow> b
      | JNumber n \<Rightarrow> n \<noteq> 0
      | JString s \<Rightarrow> s \<noteq> []
      | JArray _ \<Rightarrow> True
      | JObject _ \<Rightarrow> True)"

text \<open>
  \<open>IWebSocketMessage\<close>, the declared type of a frame: every field but \<open>type\<close> is
  optional. A frame of this type is the JSON object \<open>frame_json\<close> gives, and
  \<open>parsed_object\<close> is the parser returning it.
\<close>

record IWebSocketMessage =
  ws_type :: frame_type
  ws_message :: "js_string option"
  ws_user :: "IUser option"
  ws_timestamp :: "js_string option"
  ws_receiver :: "int option"
  ws_is_typing :: "bool option"
  ws_online_users :: "IUser list option"
  ws_status :: "presence option"

definition user_json :: "IUser \<Rightarrow> json" where
  "user_json u =
     JObject [(''id'', JNumber (user_id u)), (''username'', JString (username u)),
              (''email'', JString (email u))]"

definition type_json :: "frame_type \<Rightarrow> json" where
  "type_json t =
     JString (case t of
                chat_message \<Rightarrow> js ''chat_message''
              | typing \<Rightarrow> js ''typing''
              | online_status \<Rightarrow> js ''online_status''
              | other_type \<Rightarrow> js ''other'')"

definition presence_json :: "presence \<Rightarrow> json" where
  "presence_json p = JString (case p of online \<Rightarrow> js ''online'' | offline \<Rightarrow> js ''offline'')"

definition optional_property :: "string \<Rightarrow> ('a \<Rightarrow> json) \<Rightarrow> 'a option \<Rightarrow> (string \<times> json) list" where
  "optional_property key f v = (case v of None \<Rightarrow> [] | Some x \<Rightarrow> [(key, f x)])"

definition frame_json :: "IWebSocketMessage \<Rightarrow> json" where
  "frame_json data =
     JObject ([(''type'', type_json (ws_type data))]
              @ optional_property ''message'' JString (ws_message data)
              @ optional_property ''user'' user_json (ws_user data)
              @ optional_property ''timestamp'' JString (ws_timestamp data)
              @ optional_property ''receiver'' JNumber (ws_receiver data)
              @ optional_property ''is_typing'' JBool (ws_is_typing data)
              @ optional_property ''online_users'' (\<lambda>us. JArray (map user_json us))
                  (ws_online_users data)
              @ optional_property ''status'' presence_json (ws_status data))"

definition parsed_object :: "IWebSocketMessage \<Rightarrow> JSON_parse_result" where
  "parsed_object data = parsed (frame_json data)"

datatype js_error = SyntaxError | TypeError | InvalidStateError | URLSyntaxError

section \<open>The browser: sockets, timers, clock\<close>

datatype ready_state = CONNECTING | OPEN | CLOSING | CLOSED

text \<open>
  A \<open>WebSocket\<close> object: the conversation and token of its URL (its handlers are the
  closures of the \<open>connect\<close> that made it, over the same two values), its
  \<open>readyState\<close>, the payloads handed to \<open>send\<close> with the clock reading, and the
  code of every \<open>close\<close> call made on it.
\<close>

record websocket =
  ws_conversation :: int
  ws_token :: js_string
  readyState :: ready_state
  sent :: "(nat \<times> json) list"
  close_calls :: "int option list"

text \<open>The callback of a pending timer, with the values its closure captured.\<close>

datatype timer_action =
    reconnect_timer int js_string
  | typing_debounce_timer IConversation IUser
  | typing_timeout_timer IConversation IUser

record timer =
  timer_id :: nat
  due :: nat
  action :: timer_action

text \<open>
  An invocation of one of the three callbacks the hook receives, with the values handed
  to it.
\<close>

datatype callback =
    onMessage IMessage
  | onTyping json json
  | onUserStatus json json

text \<open>
  The state of one mounted chat page with its WebSocket hook: the browser's clock
  (milliseconds, what \<open>Date.now()\<close> returns), timer queue and sockets; the hook's refs
  and state; the authentication context; the page's state and refs.
\<close>

record world =
  now :: nat
  timers :: "timer list"
  next_timer_id :: nat
  sockets :: "websocket list"
  callbacks :: "callback list"
  console :: "string list"
  wsRef :: "nat option"
  reconnectTimeoutRef :: "nat option"
  isConnected :: bool
  connectionError :: "string option"
  accessToken :: "js_string option"
  user :: "IUser option"
  selectedConversation :: "IConversation option"
  newMessage :: js_string
  error :: "string option"
  isTyping :: bool
  typingTimeoutRef :: "nat option"
  typingDebounceRef :: "nat option"

text \<open>A statement that may throw: the error with the state at the throw, or the state.\<close>

type_synonym outcome = "(js_error \<times> world) + world"

section \<open>Event dispatcher (useWebSocket, \<open>onmessage\<close>)\<close>

text \<open>
  The body of the \<open>try\<close> block. \<open>cid\<close> is the \<open>conversationId\<close> the handler's closure
  captured. Reading \<open>data.type\<close> of \<open>null\<close> throws; the \<open>switch\<close> compares with
  \<open>===\<close>; each case tests the truthiness of the fields it needs and hands them on as
  they are.
\<close>

definition onmessage_try :: "int \<Rightarrow> JSON_parse_result \<Rightarrow> world \<Rightarrow> outcome" where
  "onmessage_try cid result w =
     (case result of
        parse_throws \<Rightarrow> Inl (SyntaxError, w)
      | parsed data \<Rightarrow>
          if data = JNull then Inl (TypeError, w)
          else if property ''type'' data = Some (JString (js ''chat_message'')) then
            (case (property ''message'' data, property ''user'' data,
                   property ''timestamp'' data) of
               (Some m, Some u, Some ts) \<Rightarrow>
                 if truthy m \<and> truthy u \<and> truthy ts then
                   Inr (w\<lparr>callbacks := callbacks w @
                     [onMessage \<lparr>message_id = int (now w), content = m, sender = u,
                                 conversation = cid, created_at = ts\<rparr>]\<rparr>)
                 else Inr w
             | _ \<Rightarrow> Inr w)
          else if property ''type'' data = Some (JString (js ''typing'')) then
            (case property ''user'' data of
               Some u \<Rightarrow>
                 if truthy u then
                   Inr (w\<lparr>callbacks := callbacks w @
                     [onTyping u (case property ''is_typing'' data of
                                    Some b \<Rightarrow> if truthy b then b else JBool False
                                  | None \<Rightarrow> JBool False)]\<rparr>)
                 else Inr w
             | None \<Rightarrow> Inr w)
          else if property ''type'' data = Some (JString (js ''online_status'')) then
            (case (property ''online_users'' data, property ''status'' data) of
               (Some us, Some st) \<Rightarrow>
                 if truthy us \<and> truthy st then
                   Inr (w\<lparr>callbacks := callbacks w @ [onUserStatus us st]\<rparr>)
                 else Inr w
             | _ \<Rightarrow> Inr w)
          else Inr w)"

text \<open>The handler: the \<open>catch\<close> block logs and returns.\<close>

definition onmessage :: "int \<Rightarrow> JSON_parse_result \<Rightarrow> world \<Rightarrow> world" where
  "onmessage cid result w =
     (case onmessage_try cid result w of
        Inl (e, w') \<Rightarrow> w'\<lparr>console := console w' @ [''Error parsing WebSocket message:'']\<rparr>
      | Inr w' \<Rightarrow> w')"

section \<open>Browser primitives\<close>

definition socket_at :: "world \<Rightarrow> nat \<Rightarrow> websocket option" where
  "socket_at w i = (if i < length (sockets w) then Some (sockets w ! i) else None)"

definition setTimeout :: "timer_action \<Rightarrow> nat \<Rightarrow> world \<Rightarrow> nat \<times> world" where
  "setTimeout a delay w =
     (next_timer_id w,
      w\<lparr>timers := timers w @ [\<lparr>timer_id = next_timer_id w, due = now w + delay, action = a\<rparr>],
        next_timer_id := Suc (next_timer_id w)\<rparr>)"

definition clearTimeout :: "nat \<Rightarrow> world \<Rightarrow> world" where
  "clearTimeout i w = w\<lparr>timers := filter (\<lambda>t. timer_id t \<noteq> i) (timers w)\<rparr>"

text \<open>
  \<open>new WebSocket(url)\<close> for the URL \<open><base>/chat/<cid>/?token=<tok>\<close>, where the
  base (\<open>ws://localhost:8000/ws\<close> unless configured) is a WebSocket URL without
  fragment: the constructor throws when the URL has a fragment, which is when the token
  contains \<open>#\<close>; otherwise the new socket is \<open>CONNECTING\<close>. Sockets are numbered in
  creation order.
\<close>

definition new_WebSocket :: "int \<Rightarrow> js_string \<Rightarrow> world \<Rightarrow> (js_error \<times> world) + (nat \<times> world)" where
  "new_WebSocket cid tok w =
     (if 0x23 \<in> set tok then Inl (URLSyntaxError, w)
      else Inr (length (sockets w),
                w\<lparr>sockets := sockets w @
                  [\<lparr>ws_conversation = cid, ws_token = tok, readyState = CONNECTING,
                    sent = [], close_calls = []\<rparr>]\<rparr>))"

text \<open>
  \<open>ws.close(code)\<close>: nothing happens to a socket that is \<open>CLOSING\<close> or \<open>CLOSED\<close>;
  a \<open>CONNECTING\<close> or \<open>OPEN\<close> one becomes \<open>CLOSING\<close>, and \<open>CLOSED\<close> only when its
  close event arrives.
\<close>

definition ws_close :: "nat \<Rightarrow> int option \<Rightarrow> world \<Rightarrow> world" where
  "ws_close i code w =
     (case socket_at w i of
        None \<Rightarrow> w
      | Some s \<Rightarrow>
          w\<lparr>sockets := (sockets w)[i :=
            s\<lparr>close_calls := close_calls s @ [code],
              readyState := (if readyState s = CONNECTING \<or> readyState s = OPEN
                             then CLOSING else readyState s)\<rparr>]\<rparr>)"

text \<open>
  \<open>ws.send(data)\<close>: throws on a \<open>CONNECTING\<close> socket, transmits on an \<open>OPEN\<close> one,
  discards the data otherwise.
\<close>

definition ws_send :: "nat \<Rightarrow> json \<Rightarrow> world \<Rightarrow> outcome" where
  "ws_send i data w =
     (case socket_at w i of
        None \<Rightarrow> Inr w
      | Some s \<Rightarrow>
          (case readyState s of
             CONNECTING \<Rightarrow> Inl (InvalidStateError, w)
           | OPEN \<Rightarrow> Inr (w\<lparr>sockets := (sockets w)[i := s\<lparr>sent := sent s @ [(now w, data)]\<rparr>]\<rparr>)
           | CLOSING \<Rightarrow> Inr w
           | CLOSED \<Rightarrow> Inr w))"

section \<open>Session transport (useWebSocket)\<close>

definition onopen :: "world \<Rightarrow> world" where
  "onopen w = w\<lparr>console := console w @ [''WebSocket connected''],
               isConnected := True, connectionError := None\<rparr>"

text \<open>
  \<open>onclose\<close> of a socket made by \<open>connect\<close> for \<open>cid\<close> and \<open>tok\<close>: the timer's
  callback is that same \<open>connect\<close>.
\<close>

definition onclose :: "int \<Rightarrow> js_string \<Rightarrow> int \<Rightarrow> world \<Rightarrow> world" where
  "onclose cid tok code w =
     (let w1 = w\<lparr>console := console w @ [''WebSocket disconnected:''], isConnected := False\<rparr>
      in if code \<noteq> 1000 then
           (case setTimeout (reconnect_timer cid tok) 3000 w1 of
              (t, w2) \<Rightarrow> w2\<lparr>reconnectTimeoutRef := Some t\<rparr>)
         else w1)"

definition onerror :: "world \<Rightarrow> world" where
  "onerror w = w\<lparr>console := console w @ [''WebSocket error:''],
                connectionError := Some ''Connection failed'', isConnected := False\<rparr>"

text \<open>
  \<open>connect\<close>, over the \<open>conversationId\<close> and \<open>accessToken\<close> of the render that made
  it. A number is falsy when it is 0, a string when it is empty.
\<close>

definition connect :: "int option \<Rightarrow> js_string option \<Rightarrow> world \<Rightarrow> world" where
  "connect conversationId token w =
     (case (conversationId, token) of
        (Some cid, Some tok) \<Rightarrow>
          if cid = 0 \<or> tok = [] then w
          else
            (let w1 = (case wsRef w of Some i \<Rightarrow> ws_close i None w | None \<Rightarrow> w)
             in case new_WebSocket cid tok w1 of
                  Inr (i, w2) \<Rightarrow> w2\<lparr>wsRef := Some i\<rparr>
                | Inl (e, w2) \<Rightarrow>
                    w2\<lparr>console := console w2 @ [''Error creating WebSocket:''],
                       connectionError := Some ''Failed to connect''\<rparr>)
      | _ \<Rightarrow> w)"

definition disconnect :: "world \<Rightarrow> world" where
  "disconnect w =
     (let w1 = (case reconnectTimeoutRef w of Some t \<Rightarrow> clearTimeout t w | None \<Rightarrow> w);
          w2 = (case wsRef w1 of
                  Some i \<Rightarrow> (ws_close i (Some 1000) w1)\<lparr>wsRef := None\<rparr>
                | None \<Rightarrow> w1)
      in w2\<lparr>isConnected := False\<rparr>)"

definition sendMessage :: "IUser option \<Rightarrow> js_string \<Rightarrow> world \<Rightarrow> outcome" where
  "sendMessage usr message w =
     (case wsRef w of
        None \<Rightarrow> Inr w
      | Some i \<Rightarrow>
          (case socket_at w i of
             None \<Rightarrow> Inr w
           | Some s \<Rightarrow>
               if readyState s = OPEN then
                 (case usr of
                    None \<Rightarrow> Inr w
                  | Some u \<Rightarrow>
                      ws_send i (JObject [(''type'', JString (js ''chat_message'')),
                                          (''message'', JString message),
                                          (''user'', JNumber (user_id u))]) w)
               else Inr w))"

definition sendTyping :: "int \<Rightarrow> bool \<Rightarrow> world \<Rightarrow> outcome" where
  "sendTyping receiverId flag w =
     (case wsRef w of
        None \<Rightarrow> Inr w
      | Some i \<Rightarrow>
          (case socket_at w i of
             None \<Rightarrow> Inr w
           | Some s \<Rightarrow>
               if readyState s = OPEN then
                 ws_send i (JObject [(''type'', JString (js ''typing'')),
                                     (''receiver'', JNumber receiverId),
                                     (''is_typing'', JBool flag)]) w
               else Inr w))"

text \<open>The effect over \<open>[conversationId, accessToken]\<close>: its body and its cleanup.\<close>

definition useEffect_body :: "int option \<Rightarrow> js_string option \<Rightarrow> world \<Rightarrow> world" where
  "useEffect_body conversationId token w =
     (case (conversationId, token) of
        (Some cid, Some tok) \<Rightarrow>
          if cid \<noteq> 0 \<and> tok \<noteq> [] then connect conversationId token w else disconnect w
      | _ \<Rightarrow> disconnect w)"

definition useEffect_cleanup :: "world \<Rightarrow> world" where
  "useEffect_cleanup w = disconnect w"

section \<open>The chat page (app/chats/page.tsx)\<close>

text \<open>
  \<open>String.prototype.trim\<close> removes the code units of \<open>WhiteSpace\<close> and
  \<open>LineTerminator\<close> from both ends.
\<close>

definition is_whitespace :: "16 word \<Rightarrow> bool" where
  "is_whitespace c =
     (c \<in> {0x9, 0xA, 0xB, 0xC, 0xD, 0x20, 0xA0, 0x1680, 0x2028, 0x2029, 0x202F, 0x205F,
            0x3000, 0xFEFF}
      \<or> (0x2000 \<le> c \<and> c \<le> 0x200A))"

definition trim :: "js_string \<Rightarrow> js_string" where
  "trim s = rev (dropWhile is_whitespace (rev (dropWhile is_whitespace s)))"

text \<open>\<open>conversationId: selectedConversation?.id || null\<close>, the hook's argument.\<close>

definition conversationId :: "world \<Rightarrow> int option" where
  "conversationId w =
     (case selectedConversation w of
        None \<Rightarrow> None
      | Some c \<Rightarrow> if conversation_id c = 0 then None else Some (conversation_id c))"

definition handleSendMessage :: "world \<Rightarrow> world" where
  "handleSendMessage w =
     (if trim (newMessage w) = [] \<or> selectedConversation w = None then w
      else
        (case sendMessage (user w) (trim (newMessage w)) w of
           Inr w1 \<Rightarrow> w1\<lparr>newMessage := []\<rparr>
         | Inl (e, w1) \<Rightarrow>
             w1\<lparr>error := Some ''Failed to send message'',
                console := console w1 @ [''Error sending message:'']\<rparr>))"

text \<open>\<open>Array.prototype.forEach\<close> with a callback that may throw.\<close>

fun forEach :: "('a \<Rightarrow> world \<Rightarrow> outcome) \<Rightarrow> 'a list \<Rightarrow> world \<Rightarrow> outcome" where
  "forEach f [] w = Inr w"
| "forEach f (x # xs) w = (case f x w of Inl e \<Rightarrow> Inl e | Inr w' \<Rightarrow> forEach f xs w')"

text \<open>\<open>v || 0\<close> for an optional number \<open>v\<close>.\<close>

definition or_zero :: "int option \<Rightarrow> int" where
  "or_zero v = (case v of None \<Rightarrow> 0 | Some n \<Rightarrow> if n = 0 then 0 else n)"

text \<open>
  The callbacks of the two timers of \<open>handleTypingStart\<close> have the same text but for the
  flag (\<open>true\<close> after 500 ms, \<open>false\<close> after 2000 ms); \<open>conv\<close> and \<open>u\<close> are the
  \<open>selectedConversation\<close> and \<open>user\<close> their closure captured.
\<close>

definition typing_timer_body :: "bool \<Rightarrow> IConversation \<Rightarrow> IUser \<Rightarrow> world \<Rightarrow> outcome" where
  "typing_timer_body flag conv u w =
     (let w1 = w\<lparr>isTyping := flag\<rparr>
      in if conversation_type conv = group then
           (case participants conv of
              None \<Rightarrow> Inr w1
            | Some ps \<Rightarrow>
                forEach (\<lambda>participant w'.
                           if user_id participant \<noteq> user_id u
                           then sendTyping (user_id participant) flag w'
                           else Inr w') ps w1)
         else
           sendTyping
             (or_zero (case participants conv of
                         None \<Rightarrow> None
                       | Some ps \<Rightarrow>
                           map_option user_id (find (\<lambda>p. user_id p \<noteq> user_id u) ps)))
             flag w1)"

definition handleTypingStart :: "world \<Rightarrow> world" where
  "handleTypingStart w =
     (case (selectedConversation w, user w) of
        (Some conv, Some u) \<Rightarrow>
          (let w1 = (case typingDebounceRef w of Some t \<Rightarrow> clearTimeout t w | None \<Rightarrow> w);
               w2 = (case setTimeout (typing_debounce_timer conv u) 500 w1 of
                       (t, w') \<Rightarrow> w'\<lparr>typingDebounceRef := Some t\<rparr>);
               w3 = (case typingTimeoutRef w2 of Some t \<Rightarrow> clearTimeout t w2 | None \<Rightarrow> w2)
           in case setTimeout (typing_timeout_timer conv u) 2000 w3 of
                (t, w') \<Rightarrow> w'\<lparr>typingTimeoutRef := Some t\<rparr>)
      | _ \<Rightarrow> w)"

section \<open>The event loop\<close>

text \<open>An exception that leaves a timer callback is reported and the callback ends.\<close>

definition uncaught :: "outcome \<Rightarrow> world" where
  "uncaught r =
     (case r of
        Inl (e, w) \<Rightarrow> w\<lparr>console := console w @ [''Uncaught exception'']\<rparr>
      | Inr w \<Rightarrow> w)"

fun run_action :: "timer_action \<Rightarrow> world \<Rightarrow> world" where
  "run_action (reconnect_timer cid tok) w = connect (Some cid) (Some tok) w"
| "run_action (typing_debounce_timer conv u) w = uncaught (typing_timer_body True conv u w)"
| "run_action (typing_timeout_timer conv u) w = uncaught (typing_timer_body False conv u w)"

text \<open>The pending timer that fires first: the least due time, the oldest among equals.\<close>

fun earliest :: "timer list \<Rightarrow> timer option" where
  "earliest [] = None"
| "earliest (x # xs) =
     (case earliest xs of
        None \<Rightarrow> Some x
      | Some y \<Rightarrow> if due x \<le> due y then Some x else Some y)"

definition next_due :: "nat \<Rightarrow> timer list \<Rightarrow> timer option" where
  "next_due t ts = earliest (filter (\<lambda>x. due x \<le> t) ts)"

text \<open>
  Letting the clock reach \<open>t\<close>: the pending timers due by then fire one after the other,
  each at its due time, and what a callback does is seen by the next.
\<close>

lemma timers_ws_close: "timers (ws_close i code w) = timers w"
  by (simp add: ws_close_def split: option.splits)

lemma timers_ws_send: "ws_send i d w = Inr w' \<Longrightarrow> timers w' = timers w"
  by (auto simp: ws_send_def split: option.splits ready_state.splits)

lemma timers_ws_send_throw: "ws_send i d w = Inl (e, w') \<Longrightarrow> timers w' = timers w"
  by (auto simp: ws_send_def split: option.splits ready_state.splits)

lemma timers_connect: "timers (connect c t w) = timers w"
  by (auto simp: connect_def new_WebSocket_def timers_ws_close Let_def
           split: option.splits sum.splits prod.splits)

lemma timers_sendTyping: "timers (uncaught (sendTyping r b w)) = timers w"
  by (auto simp: sendTyping_def uncaught_def
           dest: timers_ws_send timers_ws_send_throw
           split: option.splits sum.splits prod.splits)

lemma timers_forEach_typing:
  "timers (uncaught (forEach (\<lambda>p w'. if user_id p \<noteq> k then sendTyping (user_id p) b w'
                                       else Inr w') ps w)) = timers w"
proof (induction ps arbitrary: w)
  case Nil
  show ?case by (simp add: uncaught_def)
next
  case (Cons p ps)
  show ?case
  proof (cases "user_id p \<noteq> k")
    case False
    with Cons show ?thesis by simp
  next
    case True
    show ?thesis
    proof (cases "sendTyping (user_id p) b w")
      case (Inl ew)
      with True timers_sendTyping [of "user_id p" b w] show ?thesis by simp
    next
      case (Inr w')
      with True timers_sendTyping [of "user_id p" b w] Cons.IH [of w'] show ?thesis
        by (simp add: uncaught_def)
    qed
  qed
qed

lemma timers_typing_timer_body:
  "timers (uncaught (typing_timer_body b conv u w)) = timers w"
proof -
  have "timers (uncaught (Inr (w\<lparr>isTyping := b\<rparr>))) = timers w"
    by (simp add: uncaught_def)
  then show ?thesis
    unfolding typing_timer_body_def Let_def
    by (simp add: timers_sendTyping timers_forEach_typing split: option.splits)
qed

lemma timers_run_action: "timers (run_action a w) = timers w"
  by (cases a) (simp_all add: timers_connect timers_typing_timer_body)

lemma earliest_mem: "earliest ts = Some x \<Longrightarrow> x \<in> set ts"
  by (induction ts arbitrary: x) (auto split: option.splits if_splits)

lemma next_due_mem: "next_due t ts = Some x \<Longrightarrow> x \<in> set ts"
  unfolding next_due_def by (drule earliest_mem) simp

function advance_to :: "nat \<Rightarrow> world \<Rightarrow> world" where
  "advance_to t w =
     (case next_due t (timers w) of
        None \<Rightarrow> w\<lparr>now := max (now w) t\<rparr>
      | Some x \<Rightarrow>
          advance_to t
            (run_action (action x)
               (w\<lparr>timers := remove1 x (timers w), now := max (now w) (due x)\<rparr>)))"
  by pat_completeness auto
termination
proof (relation "measure (\<lambda>(t, w). length (timers w))")
  show "wf (measure (\<lambda>(t, w). length (timers w)))" by simp
next
  fix t :: nat and w :: world and x :: timer
  assume "next_due t (timers w) = Some x"
  then have "x \<in> set (timers w)" by (rule next_due_mem)
  then have "length (remove1 x (timers w)) < length (timers w)"
    by (simp add: length_remove1) (cases "timers w"; simp)
  then show "((t, run_action (action x)
                   (w\<lparr>timers := remove1 x (timers w), now := max (now w) (due x)\<rparr>)), (t, w))
             \<in> measure (\<lambda>(t, w). length (timers w))"
    by (simp add: timers_run_action)
qed

declare advance_to.simps [simp del]

section \<open>Events\<close>

text \<open>
  What can happen to the mounted page: a state change followed by a render (the effect
  runs again when \<open>conversationId\<close> or \<open>accessToken\<close> changed: cleanup, then body), the
  unmount, a call of the hook's \<open>reconnect\<close>, an event of a socket, time passing, and
  the two actions of the message input.
\<close>

datatype event =
    select_conversation "IConversation option"
  | auth_change "js_string option" "IUser option"
  | unmount
  | call_reconnect
  | socket_open nat
  | socket_message nat JSON_parse_result
  | socket_error nat
  | socket_close nat int
  | advance nat
  | input_change js_string
  | send_click

definition rerender :: "int option \<times> js_string option \<Rightarrow> world \<Rightarrow> world" where
  "rerender old_deps w =
     (if (conversationId w, accessToken w) = old_deps then w
      else useEffect_body (conversationId w) (accessToken w) (useEffect_cleanup w))"

text \<open>
  On unmount the cleanups run: of the hook's two effects (\<open>disconnect\<close> each), then of the
  page's effect, which clears the two typing timers.
\<close>

definition unmount_cleanup :: "world \<Rightarrow> world" where
  "unmount_cleanup w =
     (let w1 = disconnect (useEffect_cleanup w);
          w2 = (case typingTimeoutRef w1 of Some t \<Rightarrow> clearTimeout t w1 | None \<Rightarrow> w1)
      in case typingDebounceRef w2 of Some t \<Rightarrow> clearTimeout t w2 | None \<Rightarrow> w2)"

text \<open>
  The browser delivers \<open>open\<close> to a \<open>CONNECTING\<close> socket, \<open>message\<close> to an \<open>OPEN\<close>
  one, \<open>error\<close> and \<open>close\<close> to one that is not \<open>CLOSED\<close>; \<open>close\<close> makes it
  \<open>CLOSED\<close>. The handlers are those \<open>connect\<close> installed.
\<close>

fun step :: "event \<Rightarrow> world \<Rightarrow> world" where
  "step (select_conversation c) w =
     rerender (conversationId w, accessToken w) (w\<lparr>selectedConversation := c\<rparr>)"
| "step (auth_change tok usr) w =
     rerender (conversationId w, accessToken w) (w\<lparr>accessToken := tok, user := usr\<rparr>)"
| "step unmount w = unmount_cleanup w"
| "step call_reconnect w = connect (conversationId w) (accessToken w) w"
| "step (socket_open i) w =
     (case socket_at w i of
        Some s \<Rightarrow>
          if readyState s = CONNECTING
          then onopen (w\<lparr>sockets := (sockets w)[i := s\<lparr>readyState := OPEN\<rparr>]\<rparr>)
          else w
      | None \<Rightarrow> w)"
| "step (socket_message i result) w =
     (case socket_at w i of
        Some s \<Rightarrow> if readyState s = OPEN then onmessage (ws_conversation s) result w else w
      | None \<Rightarrow> w)"
| "step (socket_error i) w =
     (case socket_at w i of
        Some s \<Rightarrow> if readyState s \<noteq> CLOSED then onerror w else w
      | None \<Rightarrow> w)"
| "step (socket_close i code) w =
     (case socket_at w i of
        Some s \<Rightarrow>
          if readyState s \<noteq> CLOSED
          then onclose (ws_conversation s) (ws_token s) code
                 (w\<lparr>sockets := (sockets w)[i := s\<lparr>readyState := CLOSED\<rparr>]\<rparr>)
          else w
      | None \<Rightarrow> w)"
| "step (advance t) w = advance_to t w"
| "step (input_change v) w = handleTypingStart (w\<lparr>newMessage := v\<rparr>)"
| "step send_click w = handleSendMessage w"

definition run :: "event list \<Rightarrow> world \<Rightarrow> world" where
  "run evs w = fold step evs w"

text \<open>
  The page as it mounts, signed in with \<open>tok\<close> as \<open>usr\<close>: no conversation selected, no
  socket, no timer (timer ids start at 1, so that a stored id is truthy).
\<close>

definition initial_world :: "nat \<Rightarrow> js_string option \<Rightarrow> IUser option \<Rightarrow> world" where
  "initial_world t0 tok usr =
     \<lparr>now = t0, timers = [], next_timer_id = 1, sockets = [], callbacks = [], console = [],
      wsRef = None, reconnectTimeoutRef = None, isConnected = False, connectionError = None,
      accessToken = tok, user = usr, selectedConversation = None, newMessage = [],
      error = None, isTyping = False, typingTimeoutRef = None, typingDebounceRef = None\<rparr>"

section \<open>Notions used in the statements\<close>

text \<open>The socket \<open>wsRef.current\<close> refers to, and whether it is \<open>OPEN\<close>.\<close>

definition current_socket :: "world \<Rightarrow> websocket option" where
  "current_socket w = (case wsRef w of None \<Rightarrow> None | Some i \<Rightarrow> socket_at w i)"

definition connection_open :: "world \<Rightarrow> bool" where
  "connection_open w =
     (case current_socket w of None \<Rightarrow> False | Some s \<Rightarrow> readyState s = OPEN)"

text \<open>A socket counts as live while it is \<open>CONNECTING\<close> or \<open>OPEN\<close>.\<close>

definition live :: "websocket \<Rightarrow> bool" where
  "live s = (readyState s = CONNECTING \<or> readyState s = OPEN)"

text \<open>A property that is present with a truthy value, and the type a frame declares.\<close>

definition truthy_property :: "string \<Rightarrow> json \<Rightarrow> bool" where
  "truthy_property key data = (case property key data of None \<Rightarrow> False | Some v \<Rightarrow> truthy v)"

definition has_type :: "json \<Rightarrow> string \<Rightarrow> bool" where
  "has_type data name = (property ''type'' data = Some (JString (js name)))"

text \<open>
  The inbound frames of the wire protocol, as the specification lists them: a
  \<open>chat_message\<close> with a string \<open>message\<close>, a \<open>user\<close> object (\<open>id\<close>, \<open>username\<close>,
  \<open>email\<close>) and a string \<open>timestamp\<close>; a \<open>typing\<close> with a \<open>user\<close> object and, when
  present, a boolean \<open>is_typing\<close>; an \<open>online_status\<close> with an array \<open>online_users\<close>
  of user objects and a \<open>status\<close> of \<open>online\<close> or \<open>offline\<close>.
\<close>

definition is_user :: "json \<Rightarrow> bool" where
  "is_user v =
     (case (property ''id'' v, property ''username'' v, property ''email'' v) of
        (Some (JNumber _), Some (JString _), Some (JString _)) \<Rightarrow> True
      | _ \<Rightarrow> False)"

definition well_formed :: "json \<Rightarrow> bool" where
  "well_formed data =
     (if has_type data ''chat_message'' then
        (case (property ''message'' data, property ''user'' data, property ''timestamp'' data) of
           (Some (JString _), Some u, Some (JString _)) \<Rightarrow> is_user u
         | _ \<Rightarrow> False)
      else if has_type data ''typing'' then
        (case property ''user'' data of
           Some u \<Rightarrow>
             is_user u
             \<and> (case property ''is_typing'' data of
                  None \<Rightarrow> True
                | Some (JBool _) \<Rightarrow> True
                | _ \<Rightarrow> False)
         | None \<Rightarrow> False)
      else if has_type data ''online_status'' then
        (case (property ''online_users'' data, property ''status'' data) of
           (Some (JArray us), Some st) \<Rightarrow>
             list_all is_user us
             \<and> (st = JString (js ''online'') \<or> st = JString (js ''offline''))
         | _ \<Rightarrow> False)
      else False)"

text \<open>
  A malformed inbound frame, in the specification's words: it fails structural decoding
  (the parser throws, or the value is not a frame of the protocol), which includes
  lacking a field its type requires.
\<close>

definition malformed :: "JSON_parse_result \<Rightarrow> bool" where
  "malformed result =
     (case result of parse_throws \<Rightarrow> True | parsed data \<Rightarrow> \<not> well_formed data)"

text \<open>
  What the dispatcher tests: the parser throws, or the value is \<open>null\<close>, or it declares
  none of the three types, or a field its type requires is absent or falsy.
\<close>

definition lacks_required :: "JSON_parse_result \<Rightarrow> bool" where
  "lacks_required result =
     (case result of
        parse_throws \<Rightarrow> True
      | parsed data \<Rightarrow>
          data = JNull
          \<or> (if has_type data ''chat_message'' then
                \<not> (truthy_property ''message'' data \<and> truthy_property ''user'' data
                   \<and> truthy_property ''timestamp'' data)
              else if has_type data ''typing'' then \<not> truthy_property ''user'' data
              else if has_type data ''online_status'' then
                \<not> (truthy_property ''online_users'' data \<and> truthy_property ''status'' data)
              else True))"

text \<open>The two outbound frames of the wire protocol.\<close>

definition chat_message_frame :: "js_string \<Rightarrow> int \<Rightarrow> json" where
  "chat_message_frame text uid =
     JObject [(''type'', JString (js ''chat_message'')), (''message'', JString text),
              (''user'', JNumber uid)]"

definition typing_frame :: "int \<Rightarrow> bool \<Rightarrow> json" where
  "typing_frame receiverId flag =
     JObject [(''type'', JString (js ''typing'')), (''receiver'', JNumber receiverId),
              (''is_typing'', JBool flag)]"

text \<open>Socket \<open>i\<close> transmits the frames, in order, at the current clock reading.\<close>

definition transmit :: "nat \<Rightarrow> json list \<Rightarrow> world \<Rightarrow> world" where
  "transmit i frames w =
     (case socket_at w i of
        None \<Rightarrow> w
      | Some s \<Rightarrow>
          w\<lparr>sockets := (sockets w)[i := s\<lparr>sent := sent s @ map (\<lambda>f. (now w, f)) frames\<rparr>]\<rparr>)"

text \<open>The participants of a conversation other than the local user, in list order.\<close>

definition other_participants :: "IConversation \<Rightarrow> IUser \<Rightarrow> IUser list" where
  "other_participants conv u =
     (case participants conv of
        None \<Rightarrow> []
      | Some ps \<Rightarrow> filter (\<lambda>p. user_id p \<noteq> user_id u) ps)"

text \<open>
  Continued failure: for each code in turn, the current socket closes with that code
  and 3000 ms pass.
\<close>

fun reconnect_rounds :: "int list \<Rightarrow> world \<Rightarrow> world" where
  "reconnect_rounds [] w = w"
| "reconnect_rounds (code # codes) w =
     (case wsRef w of
        None \<Rightarrow> w
      | Some i \<Rightarrow>
          reconnect_rounds codes (run [socket_close i code, advance (now w + 3000)] w))"

text \<open>
  The receivers of a typing emission: in a group every other participant, in a direct
  conversation the first other participant, or 0 when there is none.
\<close>

definition typing_receivers :: "IConversation \<Rightarrow> IUser \<Rightarrow> int list" where
  "typing_receivers conv u =
     (if conversation_type conv = group then map user_id (other_participants conv u)
      else [case other_participants conv u of [] \<Rightarrow> 0 | p # _ \<Rightarrow> user_id p])"


text \<open>The messages handed to the message callback so far, in order.\<close>

fun received_messages :: "callback list \<Rightarrow> IMessage list" where
  "received_messages [] = []"
| "received_messages (onMessage m # cs) = m # received_messages cs"
| "received_messages (c # cs) = received_messages cs"

definition received :: "world \<Rightarrow> IMessage list" where
  "received w = received_messages (callbacks w)"

text \<open>A \<open>chat_message\<close> frame that passes the dispatcher's test.\<close>

definition accepted :: "IWebSocketMessage \<Rightarrow> bool" where
  "accepted data =
     (ws_type data = chat_message
      \<and> (case ws_message data of Some m \<Rightarrow> m \<noteq> [] | None \<Rightarrow> False)
      \<and> ws_user data \<noteq> None
      \<and> (case ws_timestamp data of Some ts \<Rightarrow> ts \<noteq> [] | None \<Rightarrow> False))"

section \<open>Example data\<close>

definition alice :: IUser where
  "alice = \<lparr>user_id = 7, username = js ''alice'', email = js ''alice@example.org''\<rparr>"

definition bob :: IUser where
  "bob = \<lparr>user_id = 3, username = js ''bob'', email = js ''bob@example.org''\<rparr>"

definition carol :: IUser where
  "carol = \<lparr>user_id = 5, username = js ''carol'', email = js ''carol@example.org''\<rparr>"

definition direct42 :: IConversation where
  "direct42 = \<lparr>conversation_id = 42, participants = Some [alice, bob],
               conversation_type = direct\<rparr>"

definition group43 :: IConversation where
  "group43 = \<lparr>conversation_id = 43, participants = Some [alice, bob, carol],
              conversation_type = group\<rparr>"

text \<open>Alice, signed in with token \<open>T\<close>, selects conversation 42 and the socket opens.\<close>

definition open_world :: world where
  "open_world =
     run [select_conversation (Some direct42), socket_open 0]
       (initial_world 1000 (Some (js ''T'')) (Some alice))"

text \<open>The same, before the socket has opened.\<close>

definition connecting_world :: world where
  "connecting_world =
     run [select_conversation (Some direct42)]
       (initial_world 1000 (Some (js ''T'')) (Some alice))"

section \<open>Evaluating the example\<close>

lemmas transport_defs =
  run_def initial_world_def rerender_def conversationId_def useEffect_body_def
  useEffect_cleanup_def disconnect_def connect_def new_WebSocket_def socket_at_def
  onopen_def ws_close_def js_def

lemma open_world_eq:
  "open_world =
     \<lparr>now = 1000, timers = [], next_timer_id = 1,
      sockets = [\<lparr>ws_conversation = 42, ws_token = js ''T'', readyState = OPEN, sent = [],
                  close_calls = []\<rparr>],
      callbacks = [], console = [''WebSocket connected''],
      wsRef = Some 0, reconnectTimeoutRef = None, isConnected = True, connectionError = None,
      accessToken = Some (js ''T''), user = Some alice, selectedConversation = Some direct42,
      newMessage = [], error = None, isTyping = False, typingTimeoutRef = None,
      typingDebounceRef = None\<rparr>"
  by (simp add: open_world_def transport_defs direct42_def)

lemma open_world_socket:
  "socket_at open_world 0 =
     Some \<lparr>ws_conversation = 42, ws_token = js ''T'', readyState = OPEN, sent = [],
           close_calls = []\<rparr>"
  by (simp add: open_world_eq socket_at_def)

lemma connecting_world_eq:
  "connecting_world =
     \<lparr>now = 1000, timers = [], next_timer_id = 1,
      sockets = [\<lparr>ws_conversation = 42, ws_token = js ''T'', readyState = CONNECTING,
                  sent = [], close_calls = []\<rparr>],
      callbacks = [], console = [],
      wsRef = Some 0, reconnectTimeoutRef = None, isConnected = False, connectionError = None,
      accessToken = Some (js ''T''), user = Some alice, selectedConversation = Some direct42,
      newMessage = [], error = None, isTyping = False, typingTimeoutRef = None,
      typingDebounceRef = None\<rparr>"
  by (simp add: connecting_world_def transport_defs direct42_def)

section \<open>The dispatcher\<close>

lemma property_Some_not_null: "property key data = Some v \<Longrightarrow> data \<noteq> JNull"
  by (auto simp: property_def)

lemma onmessage_chat_accept:
  assumes "has_type data ''chat_message''"
    and "property ''message'' data = Some m" "truthy m"
    and "property ''user'' data = Some u" "truthy u"
    and "property ''timestamp'' data = Some ts" "truthy ts"
  shows "onmessage cid (parsed data) w =
         w\<lparr>callbacks := callbacks w @
           [onMessage \<lparr>message_id = int (now w), content = m, sender = u,
                       conversation = cid, created_at = ts\<rparr>]\<rparr>"
  using assms property_Some_not_null [of "''type''" data]
  by (simp add: onmessage_def onmessage_try_def has_type_def)

lemma onmessage_chat_drop:
  assumes "has_type data ''chat_message''"
    and "\<not> (truthy_property ''message'' data \<and> truthy_property ''user'' data
            \<and> truthy_property ''timestamp'' data)"
  shows "onmessage cid (parsed data) w = w"
proof -
  have "onmessage_try cid (parsed data) w = Inr w"
    using assms property_Some_not_null [of "''type''" data]
    unfolding onmessage_try_def has_type_def truthy_property_def
    by (cases "property ''message'' data"; cases "property ''user'' data";
        cases "property ''timestamp'' data") auto
  then show ?thesis by (simp add: onmessage_def)
qed


lemma onmessage_try_chat:
  assumes "has_type data ''chat_message''"
  shows "onmessage_try cid (parsed data) w =
     (if truthy_property ''message'' data \<and> truthy_property ''user'' data
         \<and> truthy_property ''timestamp'' data
      then Inr (w\<lparr>callbacks := callbacks w @
             [onMessage \<lparr>message_id = int (now w), content = the (property ''message'' data),
                         sender = the (property ''user'' data), conversation = cid,
                         created_at = the (property ''timestamp'' data)\<rparr>]\<rparr>)
      else Inr w)"
  using assms property_Some_not_null [of "''type''" data]
  unfolding onmessage_try_def has_type_def truthy_property_def
  by (cases "property ''message'' data"; cases "property ''user'' data";
      cases "property ''timestamp'' data") simp_all

lemma type_names_distinct:
  "js ''typing'' \<noteq> js ''chat_message''"
  "js ''online_status'' \<noteq> js ''chat_message''"
  "js ''online_status'' \<noteq> js ''typing''"
  by (simp_all add: js_def)

lemma has_type_typing: "has_type data ''typing'' \<Longrightarrow> \<not> has_type data ''chat_message''"
  by (simp add: has_type_def js_def)

lemma has_type_online_status:
  "has_type data ''online_status'' \<Longrightarrow>
   \<not> has_type data ''chat_message'' \<and> \<not> has_type data ''typing''"
  by (simp add: has_type_def js_def)

lemma onmessage_try_typing:
  assumes "has_type data ''typing''"
  shows "onmessage_try cid (parsed data) w =
     (if truthy_property ''user'' data
      then Inr (w\<lparr>callbacks := callbacks w @
             [onTyping (the (property ''user'' data))
                (case property ''is_typing'' data of
                   Some b \<Rightarrow> if truthy b then b else JBool False
                 | None \<Rightarrow> JBool False)]\<rparr>)
      else Inr w)"
proof -
  have t: "property ''type'' data = Some (JString (js ''typing''))"
    using assms by (simp add: has_type_def)
  have n: "data \<noteq> JNull" using t by (rule property_Some_not_null)
  show ?thesis
    unfolding onmessage_try_def truthy_property_def
    by (cases "property ''user'' data") (simp_all add: t n type_names_distinct)
qed

lemma onmessage_try_online_status:
  assumes "has_type data ''online_status''"
  shows "onmessage_try cid (parsed data) w =
     (if truthy_property ''online_users'' data \<and> truthy_property ''status'' data
      then Inr (w\<lparr>callbacks := callbacks w @
             [onUserStatus (the (property ''online_users'' data))
                (the (property ''status'' data))]\<rparr>)
      else Inr w)"
proof -
  have o: "property ''type'' data = Some (JString (js ''online_status''))"
    using assms by (simp add: has_type_def)
  have n: "data \<noteq> JNull" using o by (rule property_Some_not_null)
  show ?thesis
    unfolding onmessage_try_def truthy_property_def
    by (cases "property ''online_users'' data"; cases "property ''status'' data")
       (simp_all add: o n type_names_distinct)
qed

lemma onmessage_try_other:
  assumes "data \<noteq> JNull" "\<not> has_type data ''chat_message''" "\<not> has_type data ''typing''"
    "\<not> has_type data ''online_status''"
  shows "onmessage_try cid (parsed data) w = Inr w"
  using assms by (simp add: onmessage_try_def has_type_def)

lemma onmessage_try_lacks_required:
  assumes "lacks_required result"
  shows "onmessage_try cid result w =
     (if result = parse_throws then Inl (SyntaxError, w)
      else if result = parsed JNull then Inl (TypeError, w) else Inr w)"
proof (cases result)
  case parse_throws
  then show ?thesis by (simp add: onmessage_try_def)
next
  case (parsed data)
  show ?thesis
  proof (cases "data = JNull")
    case True
    with parsed show ?thesis by (simp add: onmessage_try_def)
  next
    case False
    consider "has_type data ''chat_message''" | "has_type data ''typing''"
      | "has_type data ''online_status''"
      | "\<not> has_type data ''chat_message''" "\<not> has_type data ''typing''"
        "\<not> has_type data ''online_status''"
      by blast
    then show ?thesis
    proof cases
      case 1
      with parsed assms False show ?thesis
        by (auto simp: lacks_required_def onmessage_try_chat)
    next
      case 2
      with parsed assms False has_type_typing [OF 2] show ?thesis
        by (auto simp: lacks_required_def onmessage_try_typing)
    next
      case 3
      with parsed assms False has_type_online_status [OF 3] show ?thesis
        by (auto simp: lacks_required_def onmessage_try_online_status)
    next
      case 4
      with parsed False show ?thesis by (simp add: onmessage_try_other)
    qed
  qed
qed

lemma onmessage_lacks_required:
  "lacks_required result \<Longrightarrow>
   onmessage cid result w =
     (if result = parse_throws \<or> result = parsed JNull
      then w\<lparr>console := console w @ [''Error parsing WebSocket message:'']\<rparr> else w)"
  by (simp add: onmessage_def onmessage_try_lacks_required)

lemma onmessage_has_required:
  assumes "\<not> lacks_required result"
  shows "\<exists>c. onmessage cid result w = w\<lparr>callbacks := callbacks w @ [c]\<rparr>"
proof (cases result)
  case parse_throws
  with assms show ?thesis by (simp add: lacks_required_def)
next
  case (parsed data)
  with assms have n: "data \<noteq> JNull" by (auto simp: lacks_required_def)
  consider "has_type data ''chat_message''" | "has_type data ''typing''"
    | "has_type data ''online_status''"
    | "\<not> has_type data ''chat_message''" "\<not> has_type data ''typing''"
      "\<not> has_type data ''online_status''"
    by blast
  then show ?thesis
  proof cases
    case 1
    with parsed assms n show ?thesis
      by (auto simp: lacks_required_def onmessage_def onmessage_try_chat)
  next
    case 2
    with parsed assms n has_type_typing [OF 2] show ?thesis
      by (auto simp: lacks_required_def onmessage_def onmessage_try_typing)
  next
    case 3
    with parsed assms n has_type_online_status [OF 3] show ?thesis
      by (auto simp: lacks_required_def onmessage_def onmessage_try_online_status)
  next
    case 4
    with parsed assms n show ?thesis by (simp add: lacks_required_def)
  qed
qed


text \<open>
  C3, as amended. A \<open>chat_message\<close> frame delivered to an open socket: when its
  \<open>message\<close>, \<open>user\<close> and \<open>timestamp\<close> are present and truthy, the message callback is
  invoked exactly once, with a message of that content, sender and timestamp and with the
  clock reading as its id, and nothing else changes; the conversation of the message is
  the current conversation id whenever the socket is one opened for the current
  conversation. When one of the three is absent or falsy (an empty text, an empty
  timestamp), nothing happens.
\<close>

theorem chat_message_dispatch:
  assumes "socket_at w i = Some s" and "readyState s = OPEN"
    and "has_type data ''chat_message''"
  shows "(\<forall>m u ts. property ''message'' data = Some m \<and> truthy m
              \<and> property ''user'' data = Some u \<and> truthy u
              \<and> property ''timestamp'' data = Some ts \<and> truthy ts \<longrightarrow>
            (\<exists>msg. step (socket_message i (parsed data)) w =
                     w\<lparr>callbacks := callbacks w @ [onMessage msg]\<rparr>
                   \<and> message_id msg = int (now w) \<and> content msg = m \<and> sender msg = u
                   \<and> created_at msg = ts
                   \<and> (conversationId w = Some (ws_conversation s) \<longrightarrow>
                        conversationId w = Some (conversation msg))))
       \<and> (\<not> (truthy_property ''message'' data \<and> truthy_property ''user'' data
               \<and> truthy_property ''timestamp'' data) \<longrightarrow>
            step (socket_message i (parsed data)) w = w)"
proof (intro conjI allI impI)
  fix m u ts
  assume f: "property ''message'' data = Some m \<and> truthy m
              \<and> property ''user'' data = Some u \<and> truthy u
              \<and> property ''timestamp'' data = Some ts \<and> truthy ts"
  let ?msg = "\<lparr>message_id = int (now w), content = m, sender = u,
               conversation = ws_conversation s, created_at = ts\<rparr>"
  have "step (socket_message i (parsed data)) w = w\<lparr>callbacks := callbacks w @ [onMessage ?msg]\<rparr>"
    using assms f by (simp add: onmessage_chat_accept)
  then show "\<exists>msg. step (socket_message i (parsed data)) w =
                     w\<lparr>callbacks := callbacks w @ [onMessage msg]\<rparr>
                   \<and> message_id msg = int (now w) \<and> content msg = m \<and> sender msg = u
                   \<and> created_at msg = ts
                   \<and> (conversationId w = Some (ws_conversation s) \<longrightarrow>
                        conversationId w = Some (conversation msg))"
    by (intro exI [of _ ?msg]) (simp del: step.simps)
next
  assume "\<not> (truthy_property ''message'' data \<and> truthy_property ''user'' data
               \<and> truthy_property ''timestamp'' data)"
  with assms show "step (socket_message i (parsed data)) w = w"
    by (simp add: onmessage_chat_drop)
qed

theorem chat_message_dispatch_witness:
  "step (socket_message 0 (parsed (JObject
      [(''type'', JString (js ''chat_message'')), (''message'', JString (js ''hi'')),
       (''user'', user_json bob), (''timestamp'', JString (js ''2024-05-01T10:00:00Z''))])))
     open_world
   = open_world\<lparr>callbacks :=
       [onMessage \<lparr>message_id = 1000, content = JString (js ''hi''), sender = user_json bob,
                   conversation = 42, created_at = JString (js ''2024-05-01T10:00:00Z'')\<rparr>]\<rparr>
   \<and> conversationId open_world = Some 42
   \<and> step (socket_message 0 (parsed (JObject
      [(''type'', JString (js ''chat_message'')), (''message'', JString []),
       (''user'', user_json bob), (''timestamp'', JString (js ''2024-05-01T10:00:00Z''))])))
     open_world
   = open_world"
proof -
  let ?s = "\<lparr>ws_conversation = 42, ws_token = js ''T'', readyState = OPEN, sent = [],
             close_calls = []\<rparr>"
  let ?hi = "JObject
      [(''type'', JString (js ''chat_message'')), (''message'', JString (js ''hi'')),
       (''user'', user_json bob), (''timestamp'', JString (js ''2024-05-01T10:00:00Z''))]"
  let ?empty = "JObject
      [(''type'', JString (js ''chat_message'')), (''message'', JString []),
       (''user'', user_json bob), (''timestamp'', JString (js ''2024-05-01T10:00:00Z''))]"
  have o: "readyState ?s = OPEN" by simp
  have t: "has_type ?hi ''chat_message''" "has_type ?empty ''chat_message''"
    by (simp_all add: has_type_def property_def)
  have c: "conversationId open_world = Some 42"
    by (simp add: open_world_eq conversationId_def direct42_def)
  have p: "property ''message'' ?hi = Some (JString (js ''hi'')) \<and> truthy (JString (js ''hi''))
      \<and> property ''user'' ?hi = Some (user_json bob) \<and> truthy (user_json bob)
      \<and> property ''timestamp'' ?hi = Some (JString (js ''2024-05-01T10:00:00Z''))
      \<and> truthy (JString (js ''2024-05-01T10:00:00Z''))"
    by (simp add: property_def truthy_def user_json_def js_def)
  have e: "\<not> (truthy_property ''message'' ?empty \<and> truthy_property ''user'' ?empty
               \<and> truthy_property ''timestamp'' ?empty)"
    by (simp add: truthy_property_def property_def truthy_def)
  from chat_message_dispatch [OF open_world_socket o t(1)] p c
  obtain msg where m: "step (socket_message 0 (parsed ?hi)) open_world =
        open_world\<lparr>callbacks := callbacks open_world @ [onMessage msg]\<rparr>"
      "message_id msg = int (now open_world)" "content msg = JString (js ''hi'')"
      "sender msg = user_json bob" "created_at msg = JString (js ''2024-05-01T10:00:00Z'')"
      "conversation msg = 42"
    by (auto simp del: step.simps)
  have "msg = \<lparr>message_id = 1000, content = JString (js ''hi''), sender = user_json bob,
               conversation = 42, created_at = JString (js ''2024-05-01T10:00:00Z'')\<rparr>"
    using m(2-6) by (simp add: open_world_eq)
  with m(1) have 1: "step (socket_message 0 (parsed ?hi)) open_world
      = open_world\<lparr>callbacks :=
         [onMessage \<lparr>message_id = 1000, content = JString (js ''hi''), sender = user_json bob,
                   conversation = 42, created_at = JString (js ''2024-05-01T10:00:00Z'')\<rparr>]\<rparr>"
    by (simp add: open_world_eq del: step.simps)
  from chat_message_dispatch [OF open_world_socket o t(2)] e
  have 2: "step (socket_message 0 (parsed ?empty)) open_world = open_world"
    by blast
  from 1 c 2 show ?thesis by (simp del: step.simps)
qed

text \<open>
  C3 as stated fails, twice. A frame with the text \<open>hi\<close>, a sender and the timestamp
  \<open>""\<close> is dropped. And the conversation of a delivered message is not always the
  current one: Alice selects conversation 42, then 43 before the first socket has opened;
  the first socket closes with code 1006, and three seconds later its handler reconnects
  to conversation 42; a message arriving on that socket, now the current one, is handed
  on as a message of conversation 42 while conversation 43 is selected.
\<close>

theorem chat_message_conversation_counterexample:
  "callbacks (step (socket_message 0 (parsed (JObject
      [(''type'', JString (js ''chat_message'')), (''message'', JString (js ''hi'')),
       (''user'', user_json bob), (''timestamp'', JString [])]))) open_world) = []
   \<and> readyState (sockets open_world ! 0) = OPEN
   \<and> conversationId (run
        [select_conversation (Some direct42), select_conversation (Some group43),
         socket_close 0 1006, advance 4000, socket_open 2,
         socket_message 2 (parsed (JObject
           [(''type'', JString (js ''chat_message'')), (''message'', JString (js ''hi'')),
            (''user'', user_json bob), (''timestamp'', JString (js ''2024-05-01T10:00:00Z''))]))]
        (initial_world 1000 (Some (js ''T'')) (Some alice))) = Some 43
   \<and> wsRef (run
        [select_conversation (Some direct42), select_conversation (Some group43),
         socket_close 0 1006, advance 4000, socket_open 2,
         socket_message 2 (parsed (JObject
           [(''type'', JString (js ''chat_message'')), (''message'', JString (js ''hi'')),
            (''user'', user_json bob), (''timestamp'', JString (js ''2024-05-01T10:00:00Z''))]))]
        (initial_world 1000 (Some (js ''T'')) (Some alice))) = Some 2
   \<and> map conversation (received (run
        [select_conversation (Some direct42), select_conversation (Some group43),
         socket_close 0 1006, advance 4000, socket_open 2,
         socket_message 2 (parsed (JObject
           [(''type'', JString (js ''chat_message'')), (''message'', JString (js ''hi'')),
            (''user'', user_json bob), (''timestamp'', JString (js ''2024-05-01T10:00:00Z''))]))]
        (initial_world 1000 (Some (js ''T'')) (Some alice)))) = [42]"
  by (simp add: open_world_eq socket_at_def onmessage_def onmessage_try_def property_def
      truthy_def user_json_def transport_defs onclose_def setTimeout_def clearTimeout_def
      advance_to.simps next_due_def run_action.simps received_def direct42_def group43_def)


text \<open>
  C4, as amended. A frame that cannot be parsed, or is \<open>null\<close>, or declares none of the
  three types, or lacks a field its type requires (the field is absent or falsy),
  delivered to any socket, invokes no callback, leaves every socket as it was (the
  connection is not terminated) and raises nothing: the handler returns, and the state
  differs from the one before at most by console output. Every other frame delivered to
  an open socket invokes exactly one callback, whatever the shape of its fields.
\<close>

theorem frame_lacking_required_field_dropped:
  "(lacks_required result \<longrightarrow>
      callbacks (step (socket_message i result) w) = callbacks w
      \<and> sockets (step (socket_message i result) w) = sockets w
      \<and> wsRef (step (socket_message i result) w) = wsRef w
      \<and> (\<exists>log. step (socket_message i result) w = w\<lparr>console := console w @ log\<rparr>))
   \<and> (\<not> lacks_required result \<and> socket_at w i = Some s \<and> readyState s = OPEN \<longrightarrow>
      (\<exists>c. step (socket_message i result) w = w\<lparr>callbacks := callbacks w @ [c]\<rparr>))"
proof (intro conjI impI)
  assume l: "lacks_required result"
  have "step (socket_message i result) w = w
      \<or> step (socket_message i result) w =
          w\<lparr>console := console w @ [''Error parsing WebSocket message:'']\<rparr>"
    using l by (simp add: onmessage_lacks_required split: option.splits)
  then show "callbacks (step (socket_message i result) w) = callbacks w"
    and "sockets (step (socket_message i result) w) = sockets w"
    and "wsRef (step (socket_message i result) w) = wsRef w"
    by (auto simp del: step.simps)
  show "\<exists>log. step (socket_message i result) w = w\<lparr>console := console w @ log\<rparr>"
  proof (cases "step (socket_message i result) w = w")
    case True
    have "w = w\<lparr>console := console w @ []\<rparr>" by simp
    with True show ?thesis by metis
  next
    case False
    with \<open>step (socket_message i result) w = w
      \<or> step (socket_message i result) w =
          w\<lparr>console := console w @ [''Error parsing WebSocket message:'']\<rparr>\<close>
    show ?thesis by blast
  qed
next
  assume "\<not> lacks_required result \<and> socket_at w i = Some s \<and> readyState s = OPEN"
  then show "\<exists>c. step (socket_message i result) w = w\<lparr>callbacks := callbacks w @ [c]\<rparr>"
    using onmessage_has_required [of result "ws_conversation s" w] by simp
qed

theorem frame_lacking_required_field_dropped_witness:
  "lacks_required parse_throws
   \<and> step (socket_message 0 parse_throws) open_world =
       open_world\<lparr>console := [''WebSocket connected'', ''Error parsing WebSocket message:'']\<rparr>
   \<and> lacks_required (parsed (JObject [(''type'', JString (js ''typing''))]))
   \<and> step (socket_message 0 (parsed (JObject [(''type'', JString (js ''typing''))])))
       open_world = open_world
   \<and> \<not> lacks_required (parsed (JObject
         [(''type'', JString (js ''typing'')), (''user'', user_json bob)]))
   \<and> step (socket_message 0 (parsed (JObject
         [(''type'', JString (js ''typing'')), (''user'', user_json bob)]))) open_world
       = open_world\<lparr>callbacks := [onTyping (user_json bob) (JBool False)]\<rparr>"
proof -
  let ?s = "\<lparr>ws_conversation = 42, ws_token = js ''T'', readyState = OPEN, sent = [],
             close_calls = []\<rparr>"
  let ?none = "JObject [(''type'', JString (js ''typing''))]"
  let ?bob = "JObject [(''type'', JString (js ''typing'')), (''user'', user_json bob)]"
  have l: "lacks_required parse_throws" "lacks_required (parsed ?none)"
    "\<not> lacks_required (parsed ?bob)"
    by (simp_all add: lacks_required_def has_type_def truthy_property_def property_def
        truthy_def user_json_def js_def)
  have 1: "step (socket_message 0 parse_throws) open_world =
       open_world\<lparr>console := [''WebSocket connected'', ''Error parsing WebSocket message:'']\<rparr>"
    by (simp add: open_world_eq socket_at_def onmessage_def onmessage_try_def)
  have 2: "step (socket_message 0 (parsed ?none)) open_world = open_world"
    by (simp add: open_world_eq socket_at_def onmessage_def onmessage_try_def property_def
        js_def)
  have 3: "step (socket_message 0 (parsed ?bob)) open_world
       = open_world\<lparr>callbacks := [onTyping (user_json bob) (JBool False)]\<rparr>"
    by (simp add: open_world_eq socket_at_def onmessage_def onmessage_try_def property_def
        truthy_def user_json_def js_def)
  have o: "readyState ?s = OPEN" by simp
  from frame_lacking_required_field_dropped [of parse_throws 0 open_world ?s]
    frame_lacking_required_field_dropped [of "parsed ?none" 0 open_world ?s]
    frame_lacking_required_field_dropped [of "parsed ?bob" 0 open_world ?s]
    l 1 2 3 open_world_socket o
  show ?thesis by (simp del: step.simps)
qed

text \<open>
  C4 as stated fails: a \<open>typing\<close> frame whose \<open>user\<close> is the string \<open>bob\<close>, and a
  \<open>chat_message\<close> frame whose \<open>user\<close> has an \<open>id\<close> and nothing else, are not frames of
  the protocol, and each is handed to its callback.
\<close>

theorem ill_typed_frame_dispatched_counterexample:
  "malformed (parsed (JObject
      [(''type'', JString (js ''typing'')), (''user'', JString (js ''bob''))]))
   \<and> callbacks (step (socket_message 0 (parsed (JObject
        [(''type'', JString (js ''typing'')), (''user'', JString (js ''bob''))]))) open_world)
     = [onTyping (JString (js ''bob'')) (JBool False)]
   \<and> malformed (parsed (JObject
      [(''type'', JString (js ''chat_message'')), (''message'', JString (js ''hi'')),
       (''user'', JObject [(''id'', JNumber 3)]),
       (''timestamp'', JString (js ''2024-05-01T10:00:00Z''))]))
   \<and> callbacks (step (socket_message 0 (parsed (JObject
      [(''type'', JString (js ''chat_message'')), (''message'', JString (js ''hi'')),
       (''user'', JObject [(''id'', JNumber 3)]),
       (''timestamp'', JString (js ''2024-05-01T10:00:00Z''))]))) open_world)
     = [onMessage \<lparr>message_id = 1000, content = JString (js ''hi''),
                   sender = JObject [(''id'', JNumber 3)], conversation = 42,
                   created_at = JString (js ''2024-05-01T10:00:00Z'')\<rparr>]"
  by (simp add: malformed_def well_formed_def is_user_def has_type_def open_world_eq
      socket_at_def onmessage_def onmessage_try_def property_def truthy_def js_def)

section \<open>Sending\<close>

lemma socket_atD:
  "socket_at w i = Some s \<Longrightarrow> i < length (sockets w) \<and> sockets w ! i = s"
  by (auto simp: socket_at_def split: if_splits)

lemma socket_at_same: "sockets w' = sockets w \<Longrightarrow> socket_at w' i = socket_at w i"
  by (simp add: socket_at_def)


lemma transmit_Nil: "transmit i [] w = w"
  by (simp add: transmit_def socket_at_def split: option.splits)

lemma ws_send_open:
  assumes "socket_at w i = Some s" "readyState s = OPEN"
  shows "ws_send i d w = Inr (transmit i [d] w)"
  using assms by (simp add: ws_send_def transmit_def)

lemma sendMessage_open:
  assumes "wsRef w = Some i" "socket_at w i = Some s" "readyState s = OPEN"
  shows "sendMessage (Some u) text w = Inr (transmit i [chat_message_frame text (user_id u)] w)"
  using assms by (simp add: sendMessage_def ws_send_open chat_message_frame_def)

lemma sendMessage_not_open:
  assumes "\<not> connection_open w"
  shows "sendMessage usr text w = Inr w"
  using assms
  by (auto simp: sendMessage_def connection_open_def current_socket_def split: option.splits)

lemma sendMessage_no_user: "sendMessage None text w = Inr w"
  by (simp add: sendMessage_def split: option.splits)

lemma sendTyping_open:
  assumes "wsRef w = Some i" "socket_at w i = Some s" "readyState s = OPEN"
  shows "sendTyping r b w = Inr (transmit i [typing_frame r b] w)"
  using assms by (simp add: sendTyping_def ws_send_open typing_frame_def)

lemma sendTyping_not_open:
  assumes "\<not> connection_open w"
  shows "sendTyping r b w = Inr w"
  using assms
  by (auto simp: sendTyping_def connection_open_def current_socket_def split: option.splits)

lemma connection_open_iff:
  "connection_open w = (\<exists>i s. wsRef w = Some i \<and> socket_at w i = Some s \<and> readyState s = OPEN)"
  by (auto simp: connection_open_def current_socket_def split: option.splits)

text \<open>
  C6. \<open>sendMessage(text)\<close> of the hook: when the current socket is \<open>OPEN\<close> and the
  local user \<open>u\<close> is signed in, exactly the frame
  \<open>{"type":"chat_message","message":text,"user":u.id}\<close> is handed to the socket and
  nothing else changes; when the connection is not open, the call returns normally
  and leaves the state as it was.
\<close>

theorem sendMessage_frame_or_noop:
  "(\<forall>i s u. wsRef w = Some i \<and> socket_at w i = Some s \<and> readyState s = OPEN \<and> usr = Some u \<longrightarrow>
      sendMessage usr text w =
        Inr (w\<lparr>sockets := (sockets w)[i := s\<lparr>sent := sent s @
               [(now w, JObject [(''type'', JString (js ''chat_message'')),
                                 (''message'', JString text),
                                 (''user'', JNumber (user_id u))])]\<rparr>]\<rparr>))
   \<and> (\<not> connection_open w \<longrightarrow> sendMessage usr text w = Inr w)"
proof (intro conjI allI impI)
  fix i s u
  assume "wsRef w = Some i \<and> socket_at w i = Some s \<and> readyState s = OPEN \<and> usr = Some u"
  then show "sendMessage usr text w =
        Inr (w\<lparr>sockets := (sockets w)[i := s\<lparr>sent := sent s @
               [(now w, JObject [(''type'', JString (js ''chat_message'')),
                                 (''message'', JString text),
                                 (''user'', JNumber (user_id u))])]\<rparr>]\<rparr>)"
    by (simp add: sendMessage_open transmit_def chat_message_frame_def)
next
  assume "\<not> connection_open w"
  then show "sendMessage usr text w = Inr w" by (rule sendMessage_not_open)
qed

theorem sendMessage_frame_or_noop_witness:
  "sendMessage (Some alice) (js ''hi'') open_world =
     Inr (open_world\<lparr>sockets :=
       [\<lparr>ws_conversation = 42, ws_token = js ''T'', readyState = OPEN,
         sent = [(1000, JObject [(''type'', JString (js ''chat_message'')),
                                 (''message'', JString (js ''hi'')),
                                 (''user'', JNumber 7)])],
         close_calls = []\<rparr>]\<rparr>)
   \<and> \<not> connection_open connecting_world
   \<and> sendMessage (Some alice) (js ''hi'') connecting_world = Inr connecting_world"
proof -
  have n: "\<not> connection_open connecting_world"
    by (simp add: connection_open_def current_socket_def socket_at_def connecting_world_eq)
  have a: "wsRef open_world = Some 0" by (simp add: open_world_eq)
  show ?thesis
    using sendMessage_frame_or_noop [of open_world "Some alice" "js ''hi''"]
      sendMessage_frame_or_noop [of connecting_world "Some alice" "js ''hi''"] n a
      open_world_socket
    by (simp add: open_world_eq alice_def)
qed


section \<open>The send action of the page\<close>

lemma handleSendMessage_blank:
  "trim (newMessage w) = [] \<or> selectedConversation w = None \<Longrightarrow> handleSendMessage w = w"
  by (auto simp: handleSendMessage_def)

lemma handleSendMessage_open:
  assumes "trim (newMessage w) \<noteq> []" "selectedConversation w \<noteq> None"
    "wsRef w = Some i" "socket_at w i = Some s" "readyState s = OPEN" "user w = Some u"
  shows "handleSendMessage w =
     (transmit i [chat_message_frame (trim (newMessage w)) (user_id u)] w)\<lparr>newMessage := []\<rparr>"
  using assms by (auto simp: handleSendMessage_def sendMessage_open)

lemma handleSendMessage_dropped:
  assumes "trim (newMessage w) \<noteq> []" "selectedConversation w \<noteq> None"
    "\<not> connection_open w \<or> user w = None"
  shows "handleSendMessage w = w\<lparr>newMessage := []\<rparr>"
  using assms
  by (auto simp: handleSendMessage_def sendMessage_not_open sendMessage_no_user)

lemma error_transmit: "error (transmit i fs w) = error w"
  by (simp add: transmit_def split: option.splits)

lemma handleSendMessage_error: "error (handleSendMessage w) = error w"
proof (cases "trim (newMessage w) = [] \<or> selectedConversation w = None")
  case True
  then show ?thesis by (simp add: handleSendMessage_blank)
next
  case False
  show ?thesis
  proof (cases "connection_open w \<and> user w \<noteq> None")
    case True
    then obtain i s u where "wsRef w = Some i" "socket_at w i = Some s" "readyState s = OPEN"
      "user w = Some u"
      by (auto simp: connection_open_iff)
    with False show ?thesis by (simp add: handleSendMessage_open error_transmit)
  next
    case n: False
    with False show ?thesis by (simp add: handleSendMessage_dropped)
  qed
qed

text \<open>
  C7, as amended. \<open>handleSendMessage\<close> of the page: with a text that is empty or
  whitespace-only, or with no conversation selected, nothing changes at all; otherwise
  the trimmed text goes to the hook's \<open>sendMessage\<close>, which transmits it as a
  \<open>chat_message\<close> frame when the connection is open and a user is signed in and drops
  it otherwise, and the input is cleared in both cases. The page's error state is never
  touched.
\<close>

theorem handleSendMessage_outcomes:
  "(trim (newMessage w) = [] \<or> selectedConversation w = None \<longrightarrow> handleSendMessage w = w)
   \<and> (trim (newMessage w) \<noteq> [] \<and> selectedConversation w \<noteq> None \<longrightarrow>
        (\<forall>i s u. wsRef w = Some i \<and> socket_at w i = Some s \<and> readyState s = OPEN
                  \<and> user w = Some u \<longrightarrow>
           handleSendMessage w =
             (transmit i [chat_message_frame (trim (newMessage w)) (user_id u)] w)
               \<lparr>newMessage := []\<rparr>)
        \<and> (\<not> connection_open w \<or> user w = None \<longrightarrow>
             handleSendMessage w = w\<lparr>newMessage := []\<rparr>))
   \<and> error (handleSendMessage w) = error w"
  using handleSendMessage_blank [of w] handleSendMessage_open [of w]
    handleSendMessage_dropped [of w] handleSendMessage_error [of w]
  by blast

lemma trim_blank: "trim (js ''  '') = []"
  by (simp add: trim_def js_def is_whitespace_def)

lemma trim_hi: "trim (js '' hi '') = js ''hi''"
  by (simp add: trim_def js_def is_whitespace_def)

theorem handleSendMessage_outcomes_witness:
  "handleSendMessage (open_world\<lparr>newMessage := js ''  ''\<rparr>) = open_world\<lparr>newMessage := js ''  ''\<rparr>
   \<and> handleSendMessage (open_world\<lparr>newMessage := js '' hi ''\<rparr>) =
       open_world\<lparr>sockets :=
         [\<lparr>ws_conversation = 42, ws_token = js ''T'', readyState = OPEN,
           sent = [(1000, chat_message_frame (js ''hi'') 7)], close_calls = []\<rparr>]\<rparr>
   \<and> handleSendMessage (connecting_world\<lparr>newMessage := js '' hi ''\<rparr>) = connecting_world
   \<and> error (handleSendMessage (connecting_world\<lparr>newMessage := js '' hi ''\<rparr>)) = None"
proof -
  let ?blank = "open_world\<lparr>newMessage := js ''  ''\<rparr>"
  let ?hi = "open_world\<lparr>newMessage := js '' hi ''\<rparr>"
  let ?early = "connecting_world\<lparr>newMessage := js '' hi ''\<rparr>"
  have nonempty: "js ''hi'' \<noteq> []" by (simp add: js_def)
  have 1: "handleSendMessage ?blank = ?blank"
    using handleSendMessage_outcomes [of ?blank] by (simp add: trim_blank)
  have s: "socket_at ?hi 0 =
     Some \<lparr>ws_conversation = 42, ws_token = js ''T'', readyState = OPEN, sent = [],
           close_calls = []\<rparr>"
    by (simp add: open_world_eq socket_at_def)
  have "handleSendMessage ?hi =
      (transmit 0 [chat_message_frame (trim (newMessage ?hi)) (user_id alice)] ?hi)
        \<lparr>newMessage := []\<rparr>"
    using handleSendMessage_outcomes [of ?hi] s nonempty
    by (simp add: trim_hi open_world_eq)
  then have 2: "handleSendMessage ?hi =
       open_world\<lparr>sockets :=
         [\<lparr>ws_conversation = 42, ws_token = js ''T'', readyState = OPEN,
           sent = [(1000, chat_message_frame (js ''hi'') 7)], close_calls = []\<rparr>]\<rparr>"
    by (simp add: transmit_def s trim_hi) (simp add: open_world_eq alice_def)
  have n: "\<not> connection_open ?early"
    by (simp add: connection_open_def current_socket_def socket_at_def connecting_world_eq)
  have 3: "handleSendMessage ?early = connecting_world"
    using handleSendMessage_outcomes [of ?early] n nonempty
    by (simp add: trim_hi connecting_world_eq)
  have 4: "error (handleSendMessage ?early) = None"
    using 3 by (simp add: connecting_world_eq)
  from 1 2 3 4 show ?thesis by blast
qed

text \<open>
  C7 as stated fails: a whitespace-only text, and a text sent while the socket is still
  connecting, both leave the error state empty.
\<close>

theorem send_rejected_without_error_counterexample:
  "trim (newMessage (open_world\<lparr>newMessage := js ''  ''\<rparr>)) = []
   \<and> error (handleSendMessage (open_world\<lparr>newMessage := js ''  ''\<rparr>)) = None
   \<and> \<not> connection_open (connecting_world\<lparr>newMessage := js ''hi''\<rparr>)
   \<and> error (handleSendMessage (connecting_world\<lparr>newMessage := js ''hi''\<rparr>)) = None"
  by (simp add: handleSendMessage_error trim_blank open_world_eq connecting_world_eq
        connection_open_def current_socket_def socket_at_def)

section \<open>Typing emissions\<close>

lemma socket_at_transmit:
  "socket_at w i = Some s \<Longrightarrow>
   socket_at (transmit i fs w) i = Some (s\<lparr>sent := sent s @ map (\<lambda>f. (now w, f)) fs\<rparr>)"
  by (auto simp: transmit_def socket_at_def split: if_splits)

lemma transmit_transmit:
  "transmit i gs (transmit i fs w) = transmit i (fs @ gs) w"
proof (cases "socket_at w i")
  case None
  then show ?thesis by (simp add: transmit_def)
next
  case (Some s)
  from socket_at_transmit [OF Some, of fs] Some show ?thesis
    by (simp add: transmit_def)
qed

lemma wsRef_transmit: "wsRef (transmit i fs w) = wsRef w"
  by (simp add: transmit_def split: option.splits)

lemma forEach_typing_open:
  assumes "wsRef w = Some i" "socket_at w i = Some s" "readyState s = OPEN"
  shows "forEach (\<lambda>participant w'.
                    if user_id participant \<noteq> k then sendTyping (user_id participant) b w'
                    else Inr w') ps w
         = Inr (transmit i (map (\<lambda>p. typing_frame (user_id p) b)
                              (filter (\<lambda>p. user_id p \<noteq> k) ps)) w)"
  using assms
proof (induction ps arbitrary: w s)
  case Nil
  then show ?case by (simp add: transmit_Nil)
next
  case (Cons p ps)
  show ?case
  proof (cases "user_id p \<noteq> k")
    case False
    with Cons show ?thesis by simp
  next
    case True
    let ?w1 = "transmit i [typing_frame (user_id p) b] w"
    have send: "sendTyping (user_id p) b w = Inr ?w1"
      using Cons.prems by (rule sendTyping_open)
    have r: "wsRef ?w1 = Some i" using Cons.prems(1) by (simp add: wsRef_transmit)
    have s1: "socket_at ?w1 i =
        Some (s\<lparr>sent := sent s @ map (\<lambda>f. (now w, f)) [typing_frame (user_id p) b]\<rparr>)"
      using Cons.prems(2) by (rule socket_at_transmit)
    have "forEach (\<lambda>participant w'.
                    if user_id participant \<noteq> k then sendTyping (user_id participant) b w'
                    else Inr w') ps ?w1
         = Inr (transmit i (map (\<lambda>p. typing_frame (user_id p) b)
                              (filter (\<lambda>p. user_id p \<noteq> k) ps)) ?w1)"
      using Cons.IH [OF r s1] Cons.prems(3) by simp
    with True send show ?thesis by (simp add: transmit_transmit)
  qed
qed

lemma find_filter: "find P xs = (case filter P xs of [] \<Rightarrow> None | x # _ \<Rightarrow> Some x)"
  by (induction xs) auto

text \<open>The receivers the timer callbacks address, read off the code.\<close>

lemma typing_timer_body_open:
  assumes "wsRef w = Some i" "socket_at w i = Some s" "readyState s = OPEN"
  shows "typing_timer_body b conv u w =
     Inr (transmit i
            (map (\<lambda>r. typing_frame r b)
               (if conversation_type conv = group then map user_id (other_participants conv u)
                else [case other_participants conv u of [] \<Rightarrow> 0 | p # _ \<Rightarrow> user_id p]))
            (w\<lparr>isTyping := b\<rparr>))"
proof -
  let ?w1 = "w\<lparr>isTyping := b\<rparr>"
  have r: "wsRef ?w1 = Some i" using assms(1) by simp
  have s: "socket_at ?w1 i = Some s"
    using assms(2) by (auto simp: socket_at_def split: if_splits)
  show ?thesis
  proof (cases "conversation_type conv = group")
    case True
    show ?thesis
    proof (cases "participants conv")
      case None
      with True show ?thesis
        by (simp add: typing_timer_body_def other_participants_def transmit_Nil)
    next
      case (Some ps)
      with True forEach_typing_open [OF r s assms(3), of "user_id u" b ps] show ?thesis
        by (simp add: typing_timer_body_def other_participants_def comp_def)
    qed
  next
    case False
    have "or_zero (case participants conv of None \<Rightarrow> None
                   | Some ps \<Rightarrow> map_option user_id (find (\<lambda>p. user_id p \<noteq> user_id u) ps))
          = (case other_participants conv u of [] \<Rightarrow> 0 | p # _ \<Rightarrow> user_id p)"
      by (simp add: or_zero_def other_participants_def find_filter
               split: option.splits list.splits)
    with False sendTyping_open [OF r s assms(3)] show ?thesis
      by (simp add: typing_timer_body_def)
  qed
qed

lemma run_action_typing_open:
  assumes "wsRef w = Some i" "socket_at w i = Some s" "readyState s = OPEN"
  shows "run_action (typing_debounce_timer conv u) w =
           transmit i
            (map (\<lambda>r. typing_frame r True)
               (if conversation_type conv = group then map user_id (other_participants conv u)
                else [case other_participants conv u of [] \<Rightarrow> 0 | p # _ \<Rightarrow> user_id p]))
            (w\<lparr>isTyping := True\<rparr>)"
    and "run_action (typing_timeout_timer conv u) w =
           transmit i
            (map (\<lambda>r. typing_frame r False)
               (if conversation_type conv = group then map user_id (other_participants conv u)
                else [case other_participants conv u of [] \<Rightarrow> 0 | p # _ \<Rightarrow> user_id p]))
            (w\<lparr>isTyping := False\<rparr>)"
  using assms by (simp_all add: typing_timer_body_open uncaught_def)


lemma forEach_filter:
  "forEach (\<lambda>p w'. if Q p then f p w' else Inr w') ps w = forEach f (filter Q ps) w"
  by (induction ps arbitrary: w) (simp_all split: sum.splits)

lemma typing_timer_body_calls:
  "typing_timer_body flag conv u w =
     (if conversation_type conv = group
      then forEach (\<lambda>p. sendTyping (user_id p) flag) (other_participants conv u)
             (w\<lparr>isTyping := flag\<rparr>)
      else sendTyping (case other_participants conv u of [] \<Rightarrow> 0 | p # _ \<Rightarrow> user_id p) flag
             (w\<lparr>isTyping := flag\<rparr>))"
proof (cases "conversation_type conv = group")
  case True
  then show ?thesis
    by (cases "participants conv")
       (simp_all add: typing_timer_body_def other_participants_def forEach_filter)
next
  case False
  have "or_zero (case participants conv of None \<Rightarrow> None
                 | Some ps \<Rightarrow> map_option user_id (find (\<lambda>p. user_id p \<noteq> user_id u) ps))
        = (case other_participants conv u of [] \<Rightarrow> 0 | p # _ \<Rightarrow> user_id p)"
    by (simp add: or_zero_def other_participants_def find_filter
             split: option.splits list.splits)
  with False show ?thesis by (simp add: typing_timer_body_def)
qed

text \<open>
  C9. A typing-start or typing-stop emission is the callback of the debounce timer
  (flag \<open>true\<close>) or of the timeout timer (flag \<open>false\<close>). In a group conversation it
  calls \<open>sendTyping\<close> once for each participant other than the local user, addressed to
  that participant, and never for the local user; in a direct conversation with another
  participant it calls \<open>sendTyping\<close> exactly once, addressed to the first participant
  other than the local user. On an open connection these calls put on the wire one
  typing frame for each, in that order.
\<close>

theorem typing_frames_addressed:
  "(conversation_type conv = group \<longrightarrow>
      typing_timer_body flag conv u w =
        forEach (\<lambda>p. sendTyping (user_id p) flag) (other_participants conv u)
          (w\<lparr>isTyping := flag\<rparr>)
      \<and> (\<forall>p \<in> set (other_participants conv u). user_id p \<noteq> user_id u)
      \<and> (wsRef w = Some i \<and> socket_at w i = Some s \<and> readyState s = OPEN \<longrightarrow>
           typing_timer_body flag conv u w =
             Inr (transmit i (map (\<lambda>p. typing_frame (user_id p) flag)
                                (other_participants conv u)) (w\<lparr>isTyping := flag\<rparr>))))
   \<and> (conversation_type conv = direct \<longrightarrow>
        (\<forall>p rest. other_participants conv u = p # rest \<longrightarrow>
           typing_timer_body flag conv u w = sendTyping (user_id p) flag (w\<lparr>isTyping := flag\<rparr>)
           \<and> (wsRef w = Some i \<and> socket_at w i = Some s \<and> readyState s = OPEN \<longrightarrow>
                typing_timer_body flag conv u w =
                  Inr (transmit i [typing_frame (user_id p) flag] (w\<lparr>isTyping := flag\<rparr>)))))
   \<and> run_action (typing_debounce_timer conv u) w = uncaught (typing_timer_body True conv u w)
   \<and> run_action (typing_timeout_timer conv u) w = uncaught (typing_timer_body False conv u w)"
proof -
  have others: "\<forall>p \<in> set (other_participants conv u). user_id p \<noteq> user_id u"
    by (auto simp: other_participants_def split: option.splits)
  have wire: "typing_timer_body flag conv u w =
     Inr (transmit i
            (map (\<lambda>r. typing_frame r flag)
               (if conversation_type conv = group then map user_id (other_participants conv u)
                else [case other_participants conv u of [] \<Rightarrow> 0 | p # _ \<Rightarrow> user_id p]))
            (w\<lparr>isTyping := flag\<rparr>))"
    if "wsRef w = Some i \<and> socket_at w i = Some s \<and> readyState s = OPEN"
    using that typing_timer_body_open [of w i s flag conv u] by simp
  have g: "conversation_type conv = group \<longrightarrow>
      typing_timer_body flag conv u w =
        forEach (\<lambda>p. sendTyping (user_id p) flag) (other_participants conv u)
          (w\<lparr>isTyping := flag\<rparr>)
      \<and> (\<forall>p \<in> set (other_participants conv u). user_id p \<noteq> user_id u)
      \<and> (wsRef w = Some i \<and> socket_at w i = Some s \<and> readyState s = OPEN \<longrightarrow>
           typing_timer_body flag conv u w =
             Inr (transmit i (map (\<lambda>p. typing_frame (user_id p) flag)
                                (other_participants conv u)) (w\<lparr>isTyping := flag\<rparr>)))"
  proof (intro impI conjI)
    assume "conversation_type conv = group"
    then show "typing_timer_body flag conv u w =
        forEach (\<lambda>p. sendTyping (user_id p) flag) (other_participants conv u)
          (w\<lparr>isTyping := flag\<rparr>)"
      by (simp add: typing_timer_body_calls)
  next
    show "\<forall>p \<in> set (other_participants conv u). user_id p \<noteq> user_id u" by (rule others)
  next
    assume "conversation_type conv = group"
      and "wsRef w = Some i \<and> socket_at w i = Some s \<and> readyState s = OPEN"
    with wire show "typing_timer_body flag conv u w =
             Inr (transmit i (map (\<lambda>p. typing_frame (user_id p) flag)
                                (other_participants conv u)) (w\<lparr>isTyping := flag\<rparr>))"
      by (simp add: comp_def)
  qed
  have d: "conversation_type conv = direct \<longrightarrow>
        (\<forall>p rest. other_participants conv u = p # rest \<longrightarrow>
           typing_timer_body flag conv u w = sendTyping (user_id p) flag (w\<lparr>isTyping := flag\<rparr>)
           \<and> (wsRef w = Some i \<and> socket_at w i = Some s \<and> readyState s = OPEN \<longrightarrow>
                typing_timer_body flag conv u w =
                  Inr (transmit i [typing_frame (user_id p) flag] (w\<lparr>isTyping := flag\<rparr>))))"
  proof (intro impI allI conjI)
    fix p rest
    assume "conversation_type conv = direct" "other_participants conv u = p # rest"
    then show "typing_timer_body flag conv u w =
        sendTyping (user_id p) flag (w\<lparr>isTyping := flag\<rparr>)"
      by (simp add: typing_timer_body_calls)
  next
    fix p rest
    assume "conversation_type conv = direct" "other_participants conv u = p # rest"
      and "wsRef w = Some i \<and> socket_at w i = Some s \<and> readyState s = OPEN"
    with wire show "typing_timer_body flag conv u w =
        Inr (transmit i [typing_frame (user_id p) flag] (w\<lparr>isTyping := flag\<rparr>))"
      by simp
  qed
  have r: "run_action (typing_debounce_timer conv u) w = uncaught (typing_timer_body True conv u w)"
    "run_action (typing_timeout_timer conv u) w = uncaught (typing_timer_body False conv u w)"
    by simp_all
  from g d r show ?thesis by blast
qed

lemma other_participants_examples:
  "other_participants direct42 alice = [bob]"
  "other_participants group43 alice = [bob, carol]"
  by (simp_all add: other_participants_def direct42_def group43_def alice_def bob_def carol_def)

theorem typing_frames_addressed_witness:
  "typing_timer_body True group43 alice open_world =
     Inr (open_world\<lparr>sockets :=
        [\<lparr>ws_conversation = 42, ws_token = js ''T'', readyState = OPEN,
          sent = [(1000, typing_frame 3 True), (1000, typing_frame 5 True)],
          close_calls = []\<rparr>], isTyping := True\<rparr>)
   \<and> typing_timer_body False direct42 alice open_world =
     Inr (open_world\<lparr>sockets :=
        [\<lparr>ws_conversation = 42, ws_token = js ''T'', readyState = OPEN,
          sent = [(1000, typing_frame 3 False)], close_calls = []\<rparr>]\<rparr>)
   \<and> typing_timer_body True direct42 alice connecting_world =
       sendTyping 3 True (connecting_world\<lparr>isTyping := True\<rparr>)"
proof -
  let ?s = "\<lparr>ws_conversation = 42, ws_token = js ''T'', readyState = OPEN, sent = [],
             close_calls = []\<rparr>"
  have o: "wsRef open_world = Some 0 \<and> socket_at open_world 0 = Some ?s \<and> readyState ?s = OPEN"
    using open_world_socket by (simp add: open_world_eq)
  have g: "conversation_type group43 = group" by (simp add: group43_def)
  have d: "conversation_type direct42 = direct" by (simp add: direct42_def)
  have "typing_timer_body True group43 alice open_world =
      Inr (transmit 0 (map (\<lambda>p. typing_frame (user_id p) True) (other_participants group43 alice))
             (open_world\<lparr>isTyping := True\<rparr>))"
    using typing_frames_addressed [of group43 True alice open_world 0 ?s] g o by blast
  then have 1: "typing_timer_body True group43 alice open_world =
      Inr (transmit 0 [typing_frame 3 True, typing_frame 5 True] (open_world\<lparr>isTyping := True\<rparr>))"
    by (simp add: other_participants_examples bob_def carol_def)
  have b: "other_participants direct42 alice = bob # []"
    by (simp add: other_participants_examples)
  have "typing_timer_body False direct42 alice open_world =
      Inr (transmit 0 [typing_frame (user_id bob) False] (open_world\<lparr>isTyping := False\<rparr>))"
    using typing_frames_addressed [of direct42 False alice open_world 0 ?s] d o b by blast
  then have 2: "typing_timer_body False direct42 alice open_world =
      Inr (transmit 0 [typing_frame 3 False] (open_world\<lparr>isTyping := False\<rparr>))"
    by (simp add: bob_def)
  have "typing_timer_body True direct42 alice connecting_world =
       sendTyping (user_id bob) True (connecting_world\<lparr>isTyping := True\<rparr>)"
    using typing_frames_addressed [of direct42 True alice connecting_world] d b by blast
  then have 3: "typing_timer_body True direct42 alice connecting_world =
       sendTyping 3 True (connecting_world\<lparr>isTyping := True\<rparr>)"
    by (simp add: bob_def)
  show ?thesis
    unfolding 1 2 3 by (simp add: transmit_def socket_at_def open_world_eq)
qed

text \<open>
  C10. In a direct conversation whose participant list has no user other than the local
  user, or that has no participant list, the callback of either typing timer still
  calls \<open>sendTyping\<close> once, with receiver 0; on an open connection that puts one
  typing frame addressed to receiver 0 on the wire.
\<close>

theorem typing_fallback_receiver_zero:
  assumes "conversation_type conv = direct"
    and "participants conv = None
         \<or> (\<exists>ps. participants conv = Some ps \<and> (\<forall>p \<in> set ps. user_id p = user_id u))"
  shows "typing_timer_body flag conv u w = sendTyping 0 flag (w\<lparr>isTyping := flag\<rparr>)
       \<and> (wsRef w = Some i \<and> socket_at w i = Some s \<and> readyState s = OPEN \<longrightarrow>
            typing_timer_body flag conv u w =
              Inr (transmit i [typing_frame 0 flag] (w\<lparr>isTyping := flag\<rparr>))
            \<and> run_action (typing_debounce_timer conv u) w =
                transmit i [typing_frame 0 True] (w\<lparr>isTyping := True\<rparr>)
            \<and> run_action (typing_timeout_timer conv u) w =
                transmit i [typing_frame 0 False] (w\<lparr>isTyping := False\<rparr>))"
proof -
  have none: "other_participants conv u = []"
    using assms(2) by (auto simp: other_participants_def filter_empty_conv)
  have 1: "typing_timer_body flag conv u w = sendTyping 0 flag (w\<lparr>isTyping := flag\<rparr>)"
    using assms(1) none by (simp add: typing_timer_body_calls)
  have 2: "typing_timer_body flag conv u w =
              Inr (transmit i [typing_frame 0 flag] (w\<lparr>isTyping := flag\<rparr>))
            \<and> run_action (typing_debounce_timer conv u) w =
                transmit i [typing_frame 0 True] (w\<lparr>isTyping := True\<rparr>)
            \<and> run_action (typing_timeout_timer conv u) w =
                transmit i [typing_frame 0 False] (w\<lparr>isTyping := False\<rparr>)"
    if "wsRef w = Some i \<and> socket_at w i = Some s \<and> readyState s = OPEN"
    using that assms(1) none typing_timer_body_open [of w i s _ conv u]
      run_action_typing_open [of w i s conv u]
    by simp
  from 1 2 show ?thesis by blast
qed


theorem typing_fallback_receiver_zero_witness:
  "typing_timer_body True \<lparr>conversation_id = 42, participants = Some [alice],
                            conversation_type = direct\<rparr> alice open_world =
     Inr (open_world\<lparr>sockets :=
        [\<lparr>ws_conversation = 42, ws_token = js ''T'', readyState = OPEN,
          sent = [(1000, typing_frame 0 True)], close_calls = []\<rparr>], isTyping := True\<rparr>)
   \<and> run_action (typing_timeout_timer \<lparr>conversation_id = 42, participants = None,
                                        conversation_type = direct\<rparr> alice) open_world =
     open_world\<lparr>sockets :=
        [\<lparr>ws_conversation = 42, ws_token = js ''T'', readyState = OPEN,
          sent = [(1000, typing_frame 0 False)], close_calls = []\<rparr>]\<rparr>"
proof -
  let ?s = "\<lparr>ws_conversation = 42, ws_token = js ''T'', readyState = OPEN, sent = [],
             close_calls = []\<rparr>"
  let ?alone = "\<lparr>conversation_id = 42, participants = Some [alice],
                 conversation_type = direct\<rparr>"
  let ?nolist = "\<lparr>conversation_id = 42, participants = None, conversation_type = direct\<rparr>"
  have o: "wsRef open_world = Some 0 \<and> socket_at open_world 0 = Some ?s \<and> readyState ?s = OPEN"
    using open_world_socket by (simp add: open_world_eq)
  have d1: "conversation_type ?alone = direct" by simp
  have d2: "conversation_type ?nolist = direct" by simp
  have p1: "participants ?alone = None
     \<or> (\<exists>ps. participants ?alone = Some ps \<and> (\<forall>p \<in> set ps. user_id p = user_id alice))"
    by simp
  have p2: "participants ?nolist = None
     \<or> (\<exists>ps. participants ?nolist = Some ps \<and> (\<forall>p \<in> set ps. user_id p = user_id alice))"
    by simp
  have 1: "typing_timer_body True ?alone alice open_world =
             Inr (transmit 0 [typing_frame 0 True] (open_world\<lparr>isTyping := True\<rparr>))"
    using typing_fallback_receiver_zero [OF d1 p1, of True open_world 0 ?s] o by blast
  have 2: "run_action (typing_timeout_timer ?nolist alice) open_world =
             transmit 0 [typing_frame 0 False] (open_world\<lparr>isTyping := False\<rparr>)"
    using typing_fallback_receiver_zero [OF d2 p2, of True open_world 0 ?s] o by blast
  show ?thesis
    unfolding 1 2 by (simp add: transmit_def socket_at_def open_world_eq)
qed

section \<open>Reconnection\<close>

lemma timers_onclose:
  "timers (onclose cid tok code w) =
     (if code = 1000 then timers w
      else timers w @ [\<lparr>timer_id = next_timer_id w, due = now w + 3000,
                        action = reconnect_timer cid tok\<rparr>])"
  by (simp add: onclose_def setTimeout_def Let_def)

lemma step_socket_close:
  assumes "socket_at w i = Some s" "readyState s \<noteq> CLOSED"
  shows "step (socket_close i code) w =
           onclose (ws_conversation s) (ws_token s) code
             (w\<lparr>sockets := (sockets w)[i := s\<lparr>readyState := CLOSED\<rparr>]\<rparr>)"
  using assms by simp

lemma connect_valid:
  assumes "cid \<noteq> 0" "tok \<noteq> []" "0x23 \<notin> set tok"
  shows "connect (Some cid) (Some tok) w =
     (let w1 = (case wsRef w of Some i \<Rightarrow> ws_close i None w | None \<Rightarrow> w)
      in w1\<lparr>sockets := sockets w1 @
               [\<lparr>ws_conversation = cid, ws_token = tok, readyState = CONNECTING,
                 sent = [], close_calls = []\<rparr>],
             wsRef := Some (length (sockets w1))\<rparr>)"
  using assms by (simp add: connect_def new_WebSocket_def Let_def)

lemma length_sockets_ws_close: "length (sockets (ws_close i c w)) = length (sockets w)"
  by (simp add: ws_close_def split: option.splits)

lemma advance_to_idle:
  "next_due t (timers w) = None \<Longrightarrow> advance_to t w = w\<lparr>now := max (now w) t\<rparr>"
  by (simp add: advance_to.simps)

lemma advance_to_fire:
  "next_due t (timers w) = Some x \<Longrightarrow>
   advance_to t w =
     advance_to t (run_action (action x)
       (w\<lparr>timers := remove1 x (timers w), now := max (now w) (due x)\<rparr>))"
  by (subst advance_to.simps) simp

lemma reconnect_round:
  assumes valid: "cid \<noteq> 0" "tok \<noteq> []" "0x23 \<notin> set tok"
    and code: "code \<noteq> 1000"
    and w: "timers w = []" "wsRef w = Some (length ss)"
      "sockets w = ss @ [\<lparr>ws_conversation = cid, ws_token = tok, readyState = CONNECTING,
                          sent = [], close_calls = []\<rparr>]"
  shows "\<exists>ss'. length ss' = Suc (length ss)
      \<and> timers (run [socket_close (length ss) code, advance (now w + 3000)] w) = []
      \<and> wsRef (run [socket_close (length ss) code, advance (now w + 3000)] w) = Some (length ss')
      \<and> sockets (run [socket_close (length ss) code, advance (now w + 3000)] w) =
          ss' @ [\<lparr>ws_conversation = cid, ws_token = tok, readyState = CONNECTING,
                  sent = [], close_calls = []\<rparr>]
      \<and> now (run [socket_close (length ss) code, advance (now w + 3000)] w) = now w + 3000"
proof -
  let ?new = "\<lparr>ws_conversation = cid, ws_token = tok, readyState = CONNECTING,
               sent = [], close_calls = []\<rparr>"
  let ?t = "\<lparr>timer_id = next_timer_id w, due = now w + 3000,
             action = reconnect_timer cid tok\<rparr>"
  let ?old = "?new\<lparr>readyState := CLOSED, close_calls := [None]\<rparr>"
  define w1 where "w1 = step (socket_close (length ss) code) w"
  have at: "socket_at w (length ss) = Some ?new"
    using w(3) by (simp add: socket_at_def)
  have w1: "w1 = onclose cid tok code (w\<lparr>sockets := ss @ [?new\<lparr>readyState := CLOSED\<rparr>]\<rparr>)"
    unfolding w1_def using step_socket_close [OF at, of code] w(3) by simp
  have t1: "timers w1 = [?t]"
    unfolding w1 using code w(1) by (simp add: timers_onclose)
  have n1: "now w1 = now w"
    unfolding w1 by (simp add: onclose_def setTimeout_def Let_def split: prod.splits)
  have r1: "wsRef w1 = Some (length ss)"
    unfolding w1 using w(2) by (simp add: onclose_def setTimeout_def Let_def split: prod.splits)
  have s1: "sockets w1 = ss @ [?new\<lparr>readyState := CLOSED\<rparr>]"
    unfolding w1 by (simp add: onclose_def setTimeout_def Let_def split: prod.splits)
  define w1' where "w1' = w1\<lparr>timers := [], now := now w + 3000\<rparr>"
  define w2 where "w2 = connect (Some cid) (Some tok) w1'"
  have due: "next_due (now w + 3000) (timers w1) = Some ?t"
    unfolding t1 by (simp add: next_due_def)
  have "run_action (action ?t) (w1\<lparr>timers := remove1 ?t (timers w1),
                                    now := max (now w1) (due ?t)\<rparr>) = w2"
    unfolding w2_def w1'_def by (simp add: t1 n1)
  with advance_to_fire [OF due]
  have adv: "advance_to (now w + 3000) w1 = advance_to (now w + 3000) w2"
    by simp
  have at1: "socket_at w1' (length ss) = Some (?new\<lparr>readyState := CLOSED\<rparr>)"
    unfolding w1'_def by (simp add: socket_at_def s1)
  have c: "ws_close (length ss) None w1' = w1'\<lparr>sockets := ss @ [?old]\<rparr>"
    by (simp add: ws_close_def at1) (simp add: w1'_def s1)
  have r1': "wsRef w1' = Some (length ss)" unfolding w1'_def using r1 by simp
  have w2': "w2 = w1'\<lparr>sockets := (ss @ [?old]) @ [?new], wsRef := Some (Suc (length ss))\<rparr>"
    unfolding w2_def connect_valid [OF valid] by (simp add: r1' c Let_def)
  have t2: "timers w2 = []" unfolding w2' w1'_def by simp
  have n2: "now w2 = now w + 3000" unfolding w2' w1'_def by simp
  have fin: "advance_to (now w + 3000) w2 = w2"
    using advance_to_idle [of "now w + 3000" w2] t2 n2 by (simp add: next_due_def)
  have res: "run [socket_close (length ss) code, advance (now w + 3000)] w = w2"
    unfolding run_def using adv fin by (simp add: w1_def del: step.simps(8))
  show ?thesis
    unfolding res
    by (rule exI [of _ "ss @ [?old]"]) (simp add: w2' w1'_def)
qed


lemma reconnect_rounds_invariant:
  assumes valid: "cid \<noteq> 0" "tok \<noteq> []" "0x23 \<notin> set tok"
    and codes: "\<forall>c \<in> set codes. c \<noteq> 1000"
    and w: "timers w = []" "wsRef w = Some (length ss)"
      "sockets w = ss @ [\<lparr>ws_conversation = cid, ws_token = tok, readyState = CONNECTING,
                          sent = [], close_calls = []\<rparr>]"
  shows "\<exists>ss'. length ss' = length ss + length codes
      \<and> timers (reconnect_rounds codes w) = []
      \<and> wsRef (reconnect_rounds codes w) = Some (length ss')
      \<and> sockets (reconnect_rounds codes w) =
          ss' @ [\<lparr>ws_conversation = cid, ws_token = tok, readyState = CONNECTING,
                  sent = [], close_calls = []\<rparr>]
      \<and> now (reconnect_rounds codes w) = now w + 3000 * length codes"
  using codes w
proof (induction codes arbitrary: w ss)
  case Nil
  then show ?case by simp
next
  case (Cons code codes)
  let ?w' = "run [socket_close (length ss) code, advance (now w + 3000)] w"
  from Cons.prems(1) have code: "code \<noteq> 1000" and rest: "\<forall>c \<in> set codes. c \<noteq> 1000"
    by simp_all
  from reconnect_round [OF valid code Cons.prems(2-4)]
  obtain ss' where len: "length ss' = Suc (length ss)"
    and t: "timers ?w' = []" and r: "wsRef ?w' = Some (length ss')"
    and s: "sockets ?w' = ss' @ [\<lparr>ws_conversation = cid, ws_token = tok,
                                   readyState = CONNECTING, sent = [], close_calls = []\<rparr>]"
    and n: "now ?w' = now w + 3000"
    by blast
  from Cons.IH [OF rest t r s]
  obtain ss'' where "length ss'' = length ss' + length codes"
    "timers (reconnect_rounds codes ?w') = []"
    "wsRef (reconnect_rounds codes ?w') = Some (length ss'')"
    "sockets (reconnect_rounds codes ?w') =
       ss'' @ [\<lparr>ws_conversation = cid, ws_token = tok, readyState = CONNECTING,
                sent = [], close_calls = []\<rparr>]"
    "now (reconnect_rounds codes ?w') = now ?w' + 3000 * length codes"
    by blast
  moreover have "reconnect_rounds (code # codes) w = reconnect_rounds codes ?w'"
    using Cons.prems(3) by simp
  ultimately show ?case
    using len n by (intro exI [of _ ss'']) simp
qed

lemma connect_fresh:
  assumes "cid \<noteq> 0" "tok \<noteq> []" "0x23 \<notin> set tok"
  shows "\<exists>ss. length ss = length (sockets w)
      \<and> wsRef (connect (Some cid) (Some tok) w) = Some (length ss)
      \<and> sockets (connect (Some cid) (Some tok) w) =
          ss @ [\<lparr>ws_conversation = cid, ws_token = tok, readyState = CONNECTING,
                 sent = [], close_calls = []\<rparr>]"
proof -
  let ?w1 = "case wsRef w of Some i \<Rightarrow> ws_close i None w | None \<Rightarrow> w"
  have "length (sockets ?w1) = length (sockets w)"
    by (simp add: length_sockets_ws_close split: option.splits)
  then show ?thesis
    unfolding connect_valid [OF assms]
    by (intro exI [of _ "sockets ?w1"]) (simp add: Let_def)
qed

lemma current_socket_last:
  "wsRef w = Some (length ss) \<Longrightarrow> sockets w = ss @ [s] \<Longrightarrow> current_socket w = Some s"
  by (simp add: current_socket_def socket_at_def)

text \<open>
  C1. When a socket closes with code 1000 no timer is set, so that, when none was
  pending, no socket is made however much time passes. When it closes with any
  other code exactly one timer is set, due 3000 ms later, whose callback is the
  \<open>connect\<close> over the conversation id and token of that socket; when the timer fires, a
  new socket is made for the same conversation id and token. Under continued failure
  this repeats without end and without backoff: after any number \<open>n\<close> of successive
  abnormal closures of the current socket, each followed by 3000 ms, exactly \<open>n\<close> further
  sockets have been made, the last one connecting to the same conversation with the same
  token, \<open>3000 * n\<close> ms have passed, and no timer is left pending.
\<close>

theorem reconnect_policy:
  assumes "cid \<noteq> 0" and "tok \<noteq> []" and "0x23 \<notin> set tok"
  shows "(socket_at w i = Some s \<and> readyState s \<noteq> CLOSED \<longrightarrow>
            timers (step (socket_close i 1000) w) = timers w
            \<and> (timers w = [] \<longrightarrow>
                 (\<forall>t. sockets (advance_to t (step (socket_close i 1000) w)) =
                      sockets (step (socket_close i 1000) w)))
            \<and> (code \<noteq> 1000 \<longrightarrow>
                 timers (step (socket_close i code) w) =
                   timers w @ [\<lparr>timer_id = next_timer_id w, due = now w + 3000,
                                 action = reconnect_timer (ws_conversation s) (ws_token s)\<rparr>]))
       \<and> length (sockets (run_action (reconnect_timer cid tok) w)) = Suc (length (sockets w))
       \<and> current_socket (run_action (reconnect_timer cid tok) w) =
            Some \<lparr>ws_conversation = cid, ws_token = tok, readyState = CONNECTING,
                  sent = [], close_calls = []\<rparr>
       \<and> (timers w = [] \<and> (\<forall>c \<in> set codes. c \<noteq> 1000) \<longrightarrow>
            length (sockets (reconnect_rounds codes (connect (Some cid) (Some tok) w))) =
              Suc (length (sockets w)) + length codes
            \<and> now (reconnect_rounds codes (connect (Some cid) (Some tok) w)) =
                now w + 3000 * length codes
            \<and> current_socket (reconnect_rounds codes (connect (Some cid) (Some tok) w)) =
                Some \<lparr>ws_conversation = cid, ws_token = tok, readyState = CONNECTING,
                      sent = [], close_calls = []\<rparr>
            \<and> timers (reconnect_rounds codes (connect (Some cid) (Some tok) w)) = [])"
proof -
  let ?new = "\<lparr>ws_conversation = cid, ws_token = tok, readyState = CONNECTING,
               sent = [], close_calls = []\<rparr>"
  let ?w0 = "connect (Some cid) (Some tok) w"
  from connect_fresh [OF assms, of w]
  obtain ss where len: "length ss = length (sockets w)"
    and r: "wsRef ?w0 = Some (length ss)" and s: "sockets ?w0 = ss @ [?new]"
    by blast
  have close1: "socket_at w i = Some s \<and> readyState s \<noteq> CLOSED \<longrightarrow>
            timers (step (socket_close i 1000) w) = timers w
            \<and> (code \<noteq> 1000 \<longrightarrow>
                 timers (step (socket_close i code) w) =
                   timers w @ [\<lparr>timer_id = next_timer_id w, due = now w + 3000,
                                 action = reconnect_timer (ws_conversation s) (ws_token s)\<rparr>])"
    by (simp add: timers_onclose)
  have never: "sockets (advance_to t (step (socket_close i 1000) w)) =
                 sockets (step (socket_close i 1000) w)"
    if "socket_at w i = Some s \<and> readyState s \<noteq> CLOSED" "timers w = []" for t
  proof -
    define w' where "w' = step (socket_close i 1000) w"
    have "timers w' = []" using close1 that by (simp add: w'_def del: step.simps)
    then have "next_due t (timers w') = None" by (simp add: next_due_def)
    from advance_to_idle [OF this] show ?thesis by (simp add: w'_def del: step.simps)
  qed
  from close1 never
  have close: "socket_at w i = Some s \<and> readyState s \<noteq> CLOSED \<longrightarrow>
            timers (step (socket_close i 1000) w) = timers w
            \<and> (timers w = [] \<longrightarrow>
                 (\<forall>t. sockets (advance_to t (step (socket_close i 1000) w)) =
                      sockets (step (socket_close i 1000) w)))
            \<and> (code \<noteq> 1000 \<longrightarrow>
                 timers (step (socket_close i code) w) =
                   timers w @ [\<lparr>timer_id = next_timer_id w, due = now w + 3000,
                                 action = reconnect_timer (ws_conversation s) (ws_token s)\<rparr>])"
    by blast
  have fire: "length (sockets (run_action (reconnect_timer cid tok) w)) = Suc (length (sockets w))"
    "current_socket (run_action (reconnect_timer cid tok) w) = Some ?new"
    using len current_socket_last [OF r s] by (simp_all add: s)
  have rounds: "length (sockets (reconnect_rounds codes ?w0)) =
              Suc (length (sockets w)) + length codes
            \<and> now (reconnect_rounds codes ?w0) = now w + 3000 * length codes
            \<and> current_socket (reconnect_rounds codes ?w0) = Some ?new
            \<and> timers (reconnect_rounds codes ?w0) = []"
    if "timers w = []" "\<forall>c \<in> set codes. c \<noteq> 1000"
  proof -
    have t: "timers ?w0 = []" using that(1) by (simp add: timers_connect)
    have n: "now ?w0 = now w"
      unfolding connect_valid [OF assms]
      by (simp add: Let_def ws_close_def split: option.splits)
    from reconnect_rounds_invariant [OF assms that(2) t r s]
    obtain ss' where "length ss' = length ss + length codes"
      "timers (reconnect_rounds codes ?w0) = []"
      "wsRef (reconnect_rounds codes ?w0) = Some (length ss')"
      "sockets (reconnect_rounds codes ?w0) = ss' @ [?new]"
      "now (reconnect_rounds codes ?w0) = now ?w0 + 3000 * length codes"
      by blast
    then show ?thesis
      using len n current_socket_last [of "reconnect_rounds codes ?w0" ss' ?new] by simp
  qed
  from close fire rounds show ?thesis by blast
qed

theorem reconnect_policy_witness:
  "timers (step (socket_close 0 1000) connecting_world) = []
   \<and> sockets (advance_to 60000 (step (socket_close 0 1000) connecting_world)) =
       sockets (step (socket_close 0 1000) connecting_world)
   \<and> timers (step (socket_close 0 1006) connecting_world) =
       [\<lparr>timer_id = 1, due = 4000, action = reconnect_timer 42 (js ''T'')\<rparr>]
   \<and> length (sockets (reconnect_rounds [1006, 1011, 1001]
        (connect (Some 42) (Some (js ''T''))
           (initial_world 1000 (Some (js ''T'')) (Some alice))))) = 4
   \<and> now (reconnect_rounds [1006, 1011, 1001]
        (connect (Some 42) (Some (js ''T''))
           (initial_world 1000 (Some (js ''T'')) (Some alice)))) = 10000
   \<and> timers (reconnect_rounds [1006, 1011, 1001]
        (connect (Some 42) (Some (js ''T''))
           (initial_world 1000 (Some (js ''T'')) (Some alice)))) = []"
proof -
  let ?s = "\<lparr>ws_conversation = 42, ws_token = js ''T'', readyState = CONNECTING, sent = [],
             close_calls = []\<rparr>"
  have v: "(42::int) \<noteq> 0" "js ''T'' \<noteq> []" "0x23 \<notin> set (js ''T'')"
    by (simp_all add: js_def)
  have s: "socket_at connecting_world 0 = Some ?s \<and> readyState ?s \<noteq> CLOSED"
    by (simp add: connecting_world_eq socket_at_def)
  have t: "timers connecting_world = []" "next_timer_id connecting_world = 1"
    "now connecting_world = 1000"
    by (simp_all add: connecting_world_eq)
  have 1: "timers (step (socket_close 0 1000) connecting_world) = []
     \<and> sockets (advance_to 60000 (step (socket_close 0 1000) connecting_world)) =
         sockets (step (socket_close 0 1000) connecting_world)
     \<and> timers (step (socket_close 0 1006) connecting_world) =
       [\<lparr>timer_id = 1, due = 4000, action = reconnect_timer 42 (js ''T'')\<rparr>]"
    using reconnect_policy [OF v, of connecting_world 0 ?s 1006] s t
    by (simp del: step.simps)
  have i: "timers (initial_world 1000 (Some (js ''T'')) (Some alice)) = []"
    "sockets (initial_world 1000 (Some (js ''T'')) (Some alice)) = []"
    "now (initial_world 1000 (Some (js ''T'')) (Some alice)) = 1000"
    by (simp_all add: initial_world_def)
  have 2: "length (sockets (reconnect_rounds [1006, 1011, 1001]
        (connect (Some 42) (Some (js ''T''))
           (initial_world 1000 (Some (js ''T'')) (Some alice))))) = 4
   \<and> now (reconnect_rounds [1006, 1011, 1001]
        (connect (Some 42) (Some (js ''T''))
           (initial_world 1000 (Some (js ''T'')) (Some alice)))) = 10000
   \<and> timers (reconnect_rounds [1006, 1011, 1001]
        (connect (Some 42) (Some (js ''T''))
           (initial_world 1000 (Some (js ''T'')) (Some alice)))) = []"
    using reconnect_policy [OF v, of "initial_world 1000 (Some (js ''T'')) (Some alice)"
        _ _ _ "[1006, 1011, 1001]"] i
    by (simp del: reconnect_rounds.simps)
  from 1 2 show ?thesis by blast
qed

section \<open>Total forms of the sending functions\<close>

text \<open>
  What \<open>sendMessage\<close> and \<open>sendTyping\<close> come to: the frames go out when the
  current socket is open, and nothing happens otherwise.
\<close>

definition send_frames :: "json list \<Rightarrow> world \<Rightarrow> world" where
  "send_frames fs w =
     (case wsRef w of
        None \<Rightarrow> w
      | Some i \<Rightarrow>
          (case socket_at w i of
             None \<Rightarrow> w
           | Some s \<Rightarrow> if readyState s = OPEN then transmit i fs w else w))"

lemma sendTyping_total: "sendTyping r b w = Inr (send_frames [typing_frame r b] w)"
  by (simp add: sendTyping_def send_frames_def ws_send_open typing_frame_def
           split: option.splits)

lemma sendMessage_total:
  "sendMessage usr text w =
     Inr (case usr of None \<Rightarrow> w
          | Some u \<Rightarrow> send_frames [chat_message_frame text (user_id u)] w)"
  by (simp add: sendMessage_def send_frames_def ws_send_open chat_message_frame_def
           split: option.splits)

lemma forEach_typing_total:
  "forEach (\<lambda>participant w'.
              if user_id participant \<noteq> k then sendTyping (user_id participant) b w'
              else Inr w') ps w
   = Inr (fold (\<lambda>p. send_frames [typing_frame (user_id p) b])
               (filter (\<lambda>p. user_id p \<noteq> k) ps) w)"
  by (induction ps arbitrary: w) (simp_all add: sendTyping_total)

lemma typing_timer_body_total:
  "typing_timer_body b conv u w =
     Inr (fold (\<lambda>r. send_frames [typing_frame r b]) (typing_receivers conv u)
            (w\<lparr>isTyping := b\<rparr>))"
proof (cases "conversation_type conv = group")
  case True
  then show ?thesis
    by (cases "participants conv")
       (simp_all add: typing_timer_body_def typing_receivers_def other_participants_def
          forEach_typing_total fold_map comp_def)
next
  case False
  have "or_zero (case participants conv of None \<Rightarrow> None
                 | Some ps \<Rightarrow> map_option user_id (find (\<lambda>p. user_id p \<noteq> user_id u) ps))
        = (case other_participants conv u of [] \<Rightarrow> 0 | p # _ \<Rightarrow> user_id p)"
    by (simp add: or_zero_def other_participants_def find_filter
             split: option.splits list.splits)
  with False show ?thesis
    by (simp add: typing_timer_body_def typing_receivers_def sendTyping_total)
qed

lemma run_action_total:
  "run_action a w =
     (case a of
        reconnect_timer cid tok \<Rightarrow> connect (Some cid) (Some tok) w
      | typing_debounce_timer conv u \<Rightarrow>
          fold (\<lambda>r. send_frames [typing_frame r True]) (typing_receivers conv u)
            (w\<lparr>isTyping := True\<rparr>)
      | typing_timeout_timer conv u \<Rightarrow>
          fold (\<lambda>r. send_frames [typing_frame r False]) (typing_receivers conv u)
            (w\<lparr>isTyping := False\<rparr>))"
  by (cases a) (simp_all add: typing_timer_body_total uncaught_def)

lemma handleSendMessage_total:
  "handleSendMessage w =
     (if trim (newMessage w) = [] \<or> selectedConversation w = None then w
      else (case user w of None \<Rightarrow> w
            | Some u \<Rightarrow> send_frames [chat_message_frame (trim (newMessage w)) (user_id u)] w)
           \<lparr>newMessage := []\<rparr>)"
  by (simp add: handleSendMessage_def sendMessage_total)


section \<open>Message identities\<close>

text \<open>A step that leaves the callback trace and the clock alone.\<close>

definition untouched :: "world \<Rightarrow> world \<Rightarrow> bool" where
  "untouched w w' = (callbacks w' = callbacks w \<and> now w' = now w)"

lemma untouched_refl: "untouched w w"
  by (simp add: untouched_def)

lemma untouched_trans: "untouched w w' \<Longrightarrow> untouched w' w'' \<Longrightarrow> untouched w w''"
  by (simp add: untouched_def)

lemma untouched_transmit: "untouched w (transmit i fs w)"
  by (simp add: untouched_def transmit_def split: option.splits)

lemma untouched_send_frames: "untouched w (send_frames fs w)"
  using untouched_transmit [of w]
  by (simp add: send_frames_def untouched_refl split: option.splits)

lemma untouched_fold_send:
  "untouched w (fold (\<lambda>r. send_frames [typing_frame r b]) rs w)"
proof (induction rs arbitrary: w)
  case Nil
  show ?case by (simp add: untouched_refl)
next
  case (Cons r rs)
  from untouched_send_frames [of w "[typing_frame r b]"]
    Cons [of "send_frames [typing_frame r b] w"]
  show ?case by (simp add: untouched_def)
qed

lemma untouched_clearTimeout: "untouched w (clearTimeout t w)"
  by (simp add: untouched_def clearTimeout_def)

lemma untouched_ws_close: "untouched w (ws_close i c w)"
  by (simp add: untouched_def ws_close_def split: option.splits)

lemma untouched_connect: "untouched w (connect c t w)"
proof -
  have "untouched w (case wsRef w of Some i \<Rightarrow> ws_close i None w | None \<Rightarrow> w)"
    by (simp add: untouched_ws_close untouched_refl split: option.splits)
  then show ?thesis
    by (auto simp: untouched_def connect_def new_WebSocket_def Let_def
             split: option.splits)
qed

lemma untouched_disconnect: "untouched w (disconnect w)"
proof -
  let ?w1 = "case reconnectTimeoutRef w of Some t \<Rightarrow> clearTimeout t w | None \<Rightarrow> w"
  have 1: "untouched w ?w1"
    by (simp add: untouched_clearTimeout untouched_refl split: option.splits)
  have "untouched ?w1 (case wsRef ?w1 of
                  Some i \<Rightarrow> (ws_close i (Some 1000) ?w1)\<lparr>wsRef := None\<rparr>
                | None \<Rightarrow> ?w1)"
    using untouched_ws_close [of ?w1]
    by (cases "wsRef ?w1") (simp_all add: untouched_def)
  with 1 show ?thesis
    unfolding disconnect_def Let_def by (simp add: untouched_def)
qed

lemma untouched_onopen: "untouched w (onopen w)"
  by (simp add: untouched_def onopen_def)

lemma untouched_onerror: "untouched w (onerror w)"
  by (simp add: untouched_def onerror_def)

lemma untouched_onclose: "untouched w (onclose cid tok code w)"
  by (simp add: untouched_def onclose_def setTimeout_def Let_def)

lemma untouched_handleTypingStart: "untouched w (handleTypingStart w)"
  by (cases "typingDebounceRef w"; cases "typingTimeoutRef w")
     (simp_all add: untouched_def handleTypingStart_def setTimeout_def clearTimeout_def Let_def
        split: option.splits)

lemma untouched_handleSendMessage: "untouched w (handleSendMessage w)"
proof -
  have "untouched w (case user w of None \<Rightarrow> w
            | Some u \<Rightarrow> send_frames [chat_message_frame (trim (newMessage w)) (user_id u)] w)"
    by (simp add: untouched_send_frames untouched_refl split: option.splits)
  then show ?thesis
    by (simp add: handleSendMessage_total untouched_def)
qed

lemma untouched_run_action: "untouched w (run_action a w)"
proof (cases a)
  case (reconnect_timer cid tok)
  then show ?thesis by (simp add: untouched_connect)
next
  case (typing_debounce_timer conv u)
  from untouched_fold_send [of "w\<lparr>isTyping := True\<rparr>" True "typing_receivers conv u"]
  show ?thesis by (simp add: typing_debounce_timer run_action_total untouched_def)
next
  case (typing_timeout_timer conv u)
  from untouched_fold_send [of "w\<lparr>isTyping := False\<rparr>" False "typing_receivers conv u"]
  show ?thesis by (simp add: typing_timeout_timer run_action_total untouched_def)
qed

lemma untouched_useEffect_body: "untouched w (useEffect_body c t w)"
  by (simp add: useEffect_body_def untouched_connect untouched_disconnect
           split: option.splits)

lemma untouched_rerender:
  assumes "callbacks w' = callbacks w" "now w' = now w"
  shows "untouched w (rerender deps w')"
proof -
  have "untouched w w'" using assms by (simp add: untouched_def)
  moreover have "untouched w' (rerender deps w')"
    using untouched_trans [OF untouched_disconnect untouched_useEffect_body]
    by (simp add: rerender_def useEffect_cleanup_def untouched_refl)
  ultimately show ?thesis by (rule untouched_trans)
qed

lemma untouched_unmount_cleanup: "untouched w (unmount_cleanup w)"
proof -
  let ?w1 = "disconnect (useEffect_cleanup w)"
  let ?w2 = "case typingTimeoutRef ?w1 of Some t \<Rightarrow> clearTimeout t ?w1 | None \<Rightarrow> ?w1"
  have 1: "untouched w ?w1"
    unfolding useEffect_cleanup_def
    by (rule untouched_trans [OF untouched_disconnect untouched_disconnect])
  have 2: "untouched ?w1 ?w2"
    by (simp add: untouched_clearTimeout untouched_refl split: option.splits)
  have 3: "untouched ?w2 (case typingDebounceRef ?w2 of Some t \<Rightarrow> clearTimeout t ?w2
                          | None \<Rightarrow> ?w2)"
    by (simp add: untouched_clearTimeout untouched_refl split: option.splits)
  from untouched_trans [OF untouched_trans [OF 1 2] 3] show ?thesis
    by (simp add: unmount_cleanup_def Let_def)
qed

lemma advance_to_clock:
  "callbacks (advance_to t w) = callbacks w \<and> now w \<le> now (advance_to t w)"
proof (induction t w rule: advance_to.induct)
  case (1 t w)
  show ?case
  proof (cases "next_due t (timers w)")
    case None
    then show ?thesis by (simp add: advance_to_idle)
  next
    case (Some x)
    let ?w' = "w\<lparr>timers := remove1 x (timers w), now := max (now w) (due x)\<rparr>"
    from untouched_run_action [of ?w' "action x"]
    have "callbacks (run_action (action x) ?w') = callbacks w"
      "now w \<le> now (run_action (action x) ?w')"
      by (simp_all add: untouched_def)
    with "1.IH" [OF Some] advance_to_fire [OF Some] show ?thesis by simp
  qed
qed


text \<open>The invariant: the identities are sorted and none is ahead of the clock.\<close>

definition ids_bounded :: "world \<Rightarrow> bool" where
  "ids_bounded w =
     (sorted (map message_id (received w))
      \<and> (\<forall>m \<in> set (received w). message_id m \<le> int (now w)))"

lemma received_messages_append:
  "received_messages (xs @ ys) = received_messages xs @ received_messages ys"
  by (induction xs rule: received_messages.induct) simp_all

lemma sorted_constant: "\<forall>y \<in> set ys. y = (c::int) \<Longrightarrow> sorted ys"
  by (induction ys) auto

lemma ids_bounded_extend:
  assumes "ids_bounded w" "now w \<le> now w'"
    "callbacks w' = callbacks w @ cs"
    "\<forall>m \<in> set (received_messages cs). message_id m = int (now w)"
  shows "ids_bounded w'"
proof -
  let ?old = "map message_id (received w)"
  let ?new = "map message_id (received_messages cs)"
  have r: "received w' = received w @ received_messages cs"
    using assms(3) by (simp add: received_def received_messages_append)
  have new: "\<forall>y \<in> set ?new. y = int (now w)" using assms(4) by auto
  have old: "\<forall>x \<in> set ?old. x \<le> int (now w)"
    using assms(1) by (auto simp: ids_bounded_def)
  have "sorted (?old @ ?new)"
    unfolding sorted_append
    using assms(1) sorted_constant [OF new] old new by (auto simp: ids_bounded_def)
  moreover have "\<forall>y \<in> set (?old @ ?new). y \<le> int (now w')"
    using old new assms(2) by auto
  ultimately show ?thesis by (auto simp: ids_bounded_def r)
qed

lemma ids_bounded_untouched: "ids_bounded w \<Longrightarrow> untouched w w' \<Longrightarrow> ids_bounded w'"
  by (simp add: ids_bounded_def untouched_def received_def)

lemma onmessage_try_callbacks:
  "\<exists>cs w'. (onmessage_try cid result w = Inr w' \<or> (\<exists>e. onmessage_try cid result w = Inl (e, w')))
     \<and> now w' = now w \<and> callbacks w' = callbacks w @ cs
     \<and> (\<forall>m \<in> set (received_messages cs). message_id m = int (now w))"
proof (cases result)
  case parse_throws
  then show ?thesis by (simp add: onmessage_try_def)
next
  case (parsed data)
  show ?thesis
  proof (cases "data = JNull")
    case True
    with parsed show ?thesis by (simp add: onmessage_try_def)
  next
    case False
    consider "has_type data ''chat_message''" | "has_type data ''typing''"
      | "has_type data ''online_status''"
      | "\<not> has_type data ''chat_message''" "\<not> has_type data ''typing''"
        "\<not> has_type data ''online_status''"
      by blast
    then show ?thesis
    proof cases
      case 1
      with parsed show ?thesis by (simp add: onmessage_try_chat)
    next
      case 2
      with parsed show ?thesis by (simp add: onmessage_try_typing)
    next
      case 3
      with parsed show ?thesis by (simp add: onmessage_try_online_status)
    next
      case 4
      with parsed False show ?thesis by (simp add: onmessage_try_other)
    qed
  qed
qed

lemma onmessage_callbacks:
  "\<exists>cs. now (onmessage cid result w) = now w
     \<and> callbacks (onmessage cid result w) = callbacks w @ cs
     \<and> (\<forall>m \<in> set (received_messages cs). message_id m = int (now w))"
proof -
  from onmessage_try_callbacks [of cid result w]
  obtain cs w' where
    r: "onmessage_try cid result w = Inr w' \<or> (\<exists>e. onmessage_try cid result w = Inl (e, w'))"
    and k: "now w' = now w" "callbacks w' = callbacks w @ cs"
      "\<forall>m \<in> set (received_messages cs). message_id m = int (now w)"
    by blast
  from r have "now (onmessage cid result w) = now w'
      \<and> callbacks (onmessage cid result w) = callbacks w'"
    by (auto simp: onmessage_def)
  with k show ?thesis by auto
qed

lemma ids_bounded_step: "ids_bounded w \<Longrightarrow> ids_bounded (step e w)"
proof (cases e)
  case (select_conversation c)
  assume "ids_bounded w"
  then show ?thesis
    unfolding select_conversation step.simps
    by (rule ids_bounded_untouched) (rule untouched_rerender, simp_all)
next
  case (auth_change tok usr)
  assume "ids_bounded w"
  then show ?thesis
    unfolding auth_change step.simps
    by (rule ids_bounded_untouched) (rule untouched_rerender, simp_all)
next
  case unmount
  assume "ids_bounded w"
  then show ?thesis
    unfolding unmount step.simps
    by (rule ids_bounded_untouched) (rule untouched_unmount_cleanup)
next
  case call_reconnect
  assume "ids_bounded w"
  then show ?thesis
    unfolding call_reconnect step.simps
    by (rule ids_bounded_untouched) (rule untouched_connect)
next
  case (socket_open i)
  assume a: "ids_bounded w"
  have "untouched w (step (socket_open i) w)"
    by (simp add: untouched_def onopen_def split: option.splits)
  with a show ?thesis unfolding socket_open by (rule ids_bounded_untouched)
next
  case (socket_message i result)
  assume a: "ids_bounded w"
  show ?thesis
  proof (cases "\<exists>s. socket_at w i = Some s \<and> readyState s = OPEN")
    case True
    then obtain s where "socket_at w i = Some s" "readyState s = OPEN" by blast
    then have st: "step e w = onmessage (ws_conversation s) result w"
      by (simp add: socket_message)
    from onmessage_callbacks [of "ws_conversation s" result w]
    obtain cs where "now (step e w) = now w" "callbacks (step e w) = callbacks w @ cs"
      "\<forall>m \<in> set (received_messages cs). message_id m = int (now w)"
      unfolding st by blast
    with a show ?thesis
      using ids_bounded_extend [of w "step e w" cs] by simp
  next
    case False
    then have "step e w = w" by (auto simp: socket_message split: option.splits)
    with a show ?thesis by simp
  qed
next
  case (socket_error i)
  assume a: "ids_bounded w"
  have "untouched w (step (socket_error i) w)"
    by (simp add: untouched_def onerror_def split: option.splits)
  with a show ?thesis unfolding socket_error by (rule ids_bounded_untouched)
next
  case (socket_close i code)
  assume a: "ids_bounded w"
  have "untouched w (step (socket_close i code) w)"
    using untouched_onclose
    by (simp add: untouched_def split: option.splits)
  with a show ?thesis unfolding socket_close by (rule ids_bounded_untouched)
next
  case (advance t)
  assume a: "ids_bounded w"
  from advance_to_clock [of t w] a show ?thesis
    using ids_bounded_extend [of w "advance_to t w" "[]"] by (simp add: advance)
next
  case (input_change v)
  assume a: "ids_bounded w"
  have "untouched w (step (input_change v) w)"
    using untouched_handleTypingStart [of "w\<lparr>newMessage := v\<rparr>"]
    by (simp add: untouched_def)
  with a show ?thesis unfolding input_change by (rule ids_bounded_untouched)
next
  case send_click
  assume "ids_bounded w"
  then show ?thesis
    unfolding send_click step.simps
    by (rule ids_bounded_untouched) (rule untouched_handleSendMessage)
qed

lemma ids_bounded_run: "ids_bounded w \<Longrightarrow> ids_bounded (run evs w)"
  unfolding run_def by (induction evs arbitrary: w) (simp_all add: ids_bounded_step)

lemma ids_bounded_initial: "ids_bounded (initial_world t0 tok usr)"
  by (simp add: ids_bounded_def received_def initial_world_def)


lemma frame_json_accepted:
  assumes "accepted data"
  shows "\<exists>m u ts. m \<noteq> [] \<and> ts \<noteq> []
      \<and> has_type (frame_json data) ''chat_message''
      \<and> property ''message'' (frame_json data) = Some (JString m)
      \<and> property ''user'' (frame_json data) = Some (user_json u)
      \<and> property ''timestamp'' (frame_json data) = Some (JString ts)"
proof -
  from assms obtain m u ts where "ws_type data = chat_message"
    "ws_message data = Some m" "m \<noteq> []" "ws_user data = Some u"
    "ws_timestamp data = Some ts" "ts \<noteq> []"
    by (auto simp: accepted_def split: option.splits)
  then show ?thesis
    by (auto simp: frame_json_def optional_property_def type_json_def property_def
        has_type_def)
qed

text \<open>An accepted frame of the declared type is a frame of the protocol.\<close>

lemma accepted_well_formed: "accepted data \<Longrightarrow> \<not> malformed (parsed_object data)"
  using frame_json_accepted [of data]
  by (auto simp: malformed_def parsed_object_def well_formed_def is_user_def user_json_def
      property_def)

lemma received_accepted:
  assumes "socket_at w i = Some s" "readyState s = OPEN" "accepted data"
  shows "\<exists>m. message_id m = int (now w)
      \<and> step (socket_message i (parsed_object data)) w =
          w\<lparr>callbacks := callbacks w @ [onMessage m]\<rparr>"
proof -
  from frame_json_accepted [OF assms(3)] obtain m u ts where f: "m \<noteq> []" "ts \<noteq> []"
    "has_type (frame_json data) ''chat_message''"
    "property ''message'' (frame_json data) = Some (JString m)"
    "property ''user'' (frame_json data) = Some (user_json u)"
    "property ''timestamp'' (frame_json data) = Some (JString ts)"
    by blast
  have t: "truthy (JString m)" "truthy (user_json u)" "truthy (JString ts)"
    using f(1,2) by (simp_all add: truthy_def user_json_def)
  from onmessage_chat_accept [OF f(3) f(4) t(1) f(5) t(2) f(6) t(3), of "ws_conversation s" w]
    assms(1,2)
  show ?thesis
    by (intro exI [of _ "\<lparr>message_id = int (now w), content = JString m,
      sender = user_json u, conversation = ws_conversation s, created_at = JString ts\<rparr>"])
       (simp add: parsed_object_def)
qed

text \<open>
  C5, as amended. The identity given to an accepted \<open>chat_message\<close> frame is the clock
  reading, in milliseconds, at its dispatch. So, whatever happens to the page, the
  identities of the messages handed to the message callback are non-decreasing in
  arrival order; and two accepted frames dispatched with no time passing between them
  get the same identity.
\<close>

theorem message_ids_follow_clock:
  "sorted (map message_id (received (run evs (initial_world t0 tok usr))))
   \<and> (socket_at w i = Some s \<and> readyState s = OPEN \<and> accepted data \<and> accepted data' \<longrightarrow>
        map message_id (received (run [socket_message i (parsed_object data),
                                       socket_message i (parsed_object data')] w))
        = map message_id (received w) @ [int (now w), int (now w)])"
proof -
  have 1: "sorted (map message_id (received (run evs (initial_world t0 tok usr))))"
    using ids_bounded_run [OF ids_bounded_initial, of evs t0 tok usr]
    by (simp add: ids_bounded_def)
  have 2: "map message_id (received (run [socket_message i (parsed_object data),
                                       socket_message i (parsed_object data')] w))
        = map message_id (received w) @ [int (now w), int (now w)]"
    if a: "socket_at w i = Some s" "readyState s = OPEN" "accepted data" "accepted data'"
  proof -
    from received_accepted [OF a(1-3)] obtain m where
      m: "message_id m = int (now w)"
      "step (socket_message i (parsed_object data)) w = w\<lparr>callbacks := callbacks w @ [onMessage m]\<rparr>"
      by blast
    let ?w1 = "w\<lparr>callbacks := callbacks w @ [onMessage m]\<rparr>"
    have "socket_at ?w1 i = Some s" using a(1) socket_at_same [of ?w1 w i] by simp
    from received_accepted [OF this a(2,4)] obtain m' where
      m': "message_id m' = int (now w)"
      "step (socket_message i (parsed_object data')) ?w1
         = ?w1\<lparr>callbacks := callbacks ?w1 @ [onMessage m']\<rparr>"
      by auto
    have "run [socket_message i (parsed_object data), socket_message i (parsed_object data')] w
          = w\<lparr>callbacks := callbacks w @ [onMessage m, onMessage m']\<rparr>"
      unfolding run_def using m(2) m'(2) by (simp del: step.simps)
    then show ?thesis
      using m(1) m'(1) by (simp add: received_def received_messages_append)
  qed
  from 1 2 show ?thesis by blast
qed

theorem message_ids_follow_clock_witness:
  "map message_id (received (run
      [select_conversation (Some direct42), socket_open 0,
       socket_message 0 (parsed_object
         \<lparr>ws_type = chat_message, ws_message = Some (js ''hi''), ws_user = Some bob,
          ws_timestamp = Some (js ''2024-05-01T10:00:00Z''), ws_receiver = None,
          ws_is_typing = None, ws_online_users = None, ws_status = None\<rparr>),
       advance 1500,
       socket_message 0 (parsed_object
         \<lparr>ws_type = chat_message, ws_message = Some (js ''yo''), ws_user = Some bob,
          ws_timestamp = Some (js ''2024-05-01T10:00:01Z''), ws_receiver = None,
          ws_is_typing = None, ws_online_users = None, ws_status = None\<rparr>)]
      (initial_world 1000 (Some (js ''T'')) (Some alice)))) = [1000, 1500]
   \<and> sorted (map message_id (received (run
      [select_conversation (Some direct42), socket_open 0,
       socket_message 0 (parsed_object
         \<lparr>ws_type = chat_message, ws_message = Some (js ''hi''), ws_user = Some bob,
          ws_timestamp = Some (js ''2024-05-01T10:00:00Z''), ws_receiver = None,
          ws_is_typing = None, ws_online_users = None, ws_status = None\<rparr>),
       advance 1500,
       socket_message 0 (parsed_object
         \<lparr>ws_type = chat_message, ws_message = Some (js ''yo''), ws_user = Some bob,
          ws_timestamp = Some (js ''2024-05-01T10:00:01Z''), ws_receiver = None,
          ws_is_typing = None, ws_online_users = None, ws_status = None\<rparr>)]
      (initial_world 1000 (Some (js ''T'')) (Some alice)))))
   \<and> map message_id (received (run
      [socket_message 0 (parsed_object
         \<lparr>ws_type = chat_message, ws_message = Some (js ''hi''), ws_user = Some bob,
          ws_timestamp = Some (js ''2024-05-01T10:00:00Z''), ws_receiver = None,
          ws_is_typing = None, ws_online_users = None, ws_status = None\<rparr>),
       socket_message 0 (parsed_object
         \<lparr>ws_type = chat_message, ws_message = Some (js ''hi''), ws_user = Some carol,
          ws_timestamp = Some (js ''2024-05-01T10:00:00Z''), ws_receiver = None,
          ws_is_typing = None, ws_online_users = None, ws_status = None\<rparr>)]
      open_world)) = [1000, 1000]"
proof -
  let ?hi = "\<lparr>ws_type = chat_message, ws_message = Some (js ''hi''), ws_user = Some bob,
          ws_timestamp = Some (js ''2024-05-01T10:00:00Z''), ws_receiver = None,
          ws_is_typing = None, ws_online_users = None, ws_status = None\<rparr>"
  let ?yo = "\<lparr>ws_type = chat_message, ws_message = Some (js ''yo''), ws_user = Some bob,
          ws_timestamp = Some (js ''2024-05-01T10:00:01Z''), ws_receiver = None,
          ws_is_typing = None, ws_online_users = None, ws_status = None\<rparr>"
  let ?hi' = "\<lparr>ws_type = chat_message, ws_message = Some (js ''hi''), ws_user = Some carol,
          ws_timestamp = Some (js ''2024-05-01T10:00:00Z''), ws_receiver = None,
          ws_is_typing = None, ws_online_users = None, ws_status = None\<rparr>"
  let ?s = "\<lparr>ws_conversation = 42, ws_token = js ''T'', readyState = OPEN, sent = [],
             close_calls = []\<rparr>"
  let ?evs = "[select_conversation (Some direct42), socket_open 0,
       socket_message 0 (parsed_object ?hi), advance 1500,
       socket_message 0 (parsed_object ?yo)]"
  have 1: "map message_id (received (run ?evs (initial_world 1000 (Some (js ''T'')) (Some alice))))
        = [1000, 1500]"
    by (simp add: transport_defs direct42_def onmessage_def onmessage_try_def
          advance_to.simps next_due_def received_def parsed_object_def frame_json_def
          optional_property_def type_json_def property_def truthy_def user_json_def)
  have 2: "sorted (map message_id
             (received (run ?evs (initial_world 1000 (Some (js ''T'')) (Some alice)))))"
    using message_ids_follow_clock [of ?evs 1000 "Some (js ''T'')" "Some alice"] by blast
  have a: "accepted ?hi" "accepted ?hi'" by (simp_all add: accepted_def js_def)
  have o: "readyState ?s = OPEN" by simp
  have e: "received open_world = []" "now open_world = 1000"
    by (simp_all add: open_world_eq received_def)
  have "map message_id (received (run [socket_message 0 (parsed_object ?hi),
                                       socket_message 0 (parsed_object ?hi')] open_world))
        = map message_id (received open_world) @ [int (now open_world), int (now open_world)]"
    using message_ids_follow_clock [of _ _ _ _ open_world 0 ?s ?hi ?hi'] open_world_socket o a
    by blast
  then have 3: "map message_id (received (run [socket_message 0 (parsed_object ?hi),
                                       socket_message 0 (parsed_object ?hi')] open_world))
        = [1000, 1000]"
    by (simp add: e)
  from 1 2 3 show ?thesis by blast
qed

text \<open>
  C5 as stated fails: two different accepted frames dispatched in the same millisecond
  get the same identity.
\<close>

theorem message_ids_collide_counterexample:
  "map message_id (received (run
      [socket_message 0 (parsed_object
         \<lparr>ws_type = chat_message, ws_message = Some (js ''hi''), ws_user = Some bob,
          ws_timestamp = Some (js ''2024-05-01T10:00:00Z''), ws_receiver = None,
          ws_is_typing = None, ws_online_users = None, ws_status = None\<rparr>),
       socket_message 0 (parsed_object
         \<lparr>ws_type = chat_message, ws_message = Some (js ''yo''), ws_user = Some bob,
          ws_timestamp = Some (js ''2024-05-01T10:00:00Z''), ws_receiver = None,
          ws_is_typing = None, ws_online_users = None, ws_status = None\<rparr>)]
      open_world)) = [1000, 1000]"
  by (simp add: open_world_eq run_def socket_at_def onmessage_def onmessage_try_def js_def
        received_def parsed_object_def frame_json_def optional_property_def type_json_def
        property_def truthy_def user_json_def)

section \<open>Typing debounce\<close>















section \<open>One live connection\<close>


text \<open>A step that keeps the current socket and brings no socket to life.\<close>

definition no_more_live :: "world \<Rightarrow> world \<Rightarrow> bool" where
  "no_more_live w w' =
     (wsRef w' = wsRef w \<and> length (sockets w') = length (sockets w)
      \<and> (\<forall>j < length (sockets w). live (sockets w' ! j) \<longrightarrow> live (sockets w ! j)))"

lemma no_more_live_refl: "no_more_live w w"
  by (simp add: no_more_live_def)



lemma no_more_live_update:
  assumes "socket_at w i = Some s" "live s' \<longrightarrow> live s"
    "sockets w' = (sockets w)[i := s']" "wsRef w' = wsRef w"
  shows "no_more_live w w'"
proof -
  from socket_atD [OF assms(1)] have "i < length (sockets w)" "sockets w ! i = s" by simp_all
  with assms(2-4) show ?thesis
    by (auto simp: no_more_live_def nth_list_update)
qed






lemma no_more_live_ws_close: "no_more_live w (ws_close i c w)"
proof (cases "socket_at w i")
  case None
  then show ?thesis by (simp add: ws_close_def no_more_live_refl)
next
  case (Some s)
  show ?thesis
    by (rule no_more_live_update [OF Some, of
          "s\<lparr>close_calls := close_calls s @ [c],
             readyState := (if readyState s = CONNECTING \<or> readyState s = OPEN
                            then CLOSING else readyState s)\<rparr>"])
       (simp_all add: ws_close_def Some live_def)
qed


































end
